theory Spec2Isabelle
  imports Complex_Main "HOL-Library.Sublist"
begin

section \<open>Strings and numbers of the source language\<close>

text \<open>
  The datetime parser (\<^verbatim>\<open>src/utils/datetime-parser.ts\<close>, the two revisions under
  \<^verbatim>\<open>src/unnamed/part_002\<close> and \<^verbatim>\<open>src/unnamed/part_003\<close>) works on JavaScript strings
  and numbers.

  \<^item> A string is a list of code units. The model covers the strings whose code units lie
    in the Latin-1 range: a \<^typ>\<open>char\<close> with code \<open>n\<close> stands for the code unit
    \<open>U+00n\<close>.
  \<^item> A number is modelled by an exact rational (\<^typ>\<open>rat\<close>): every finite double is
    one, and the arithmetic of the source on integers is exact as long as the
    magnitudes stay below \<open>2^53\<close>. Rounding, infinities and NaN are outside the model.
\<close>

definition is_digit :: "char \<Rightarrow> bool" where
  \<comment> \<open>the regular-expression class \<^verbatim>\<open>\d\<close>\<close>
  "is_digit c \<longleftrightarrow> c \<in> set ''0123456789''"

definition is_lower :: "char \<Rightarrow> bool" where
  \<comment> \<open>the class \<^verbatim>\<open>[a-z]\<close> of a case-sensitive expression\<close>
  "is_lower c \<longleftrightarrow> c \<in> set ''abcdefghijklmnopqrstuvwxyz''"

definition is_upper :: "char \<Rightarrow> bool" where
  "is_upper c \<longleftrightarrow> c \<in> set ''ABCDEFGHIJKLMNOPQRSTUVWXYZ''"

definition is_letter :: "char \<Rightarrow> bool" where
  \<comment> \<open>the class \<^verbatim>\<open>[a-z]\<close> under the flag \<^verbatim>\<open>i\<close>: no code unit outside ASCII
      is canonicalised to an ASCII letter\<close>
  "is_letter c \<longleftrightarrow> is_lower c \<or> is_upper c"

definition is_space :: "char \<Rightarrow> bool" where
  \<comment> \<open>the class \<^verbatim>\<open>\s\<close>, which is also what \<^verbatim>\<open>trim\<close> strips: TAB, LF, VT, FF, CR,
      SPACE and NO-BREAK SPACE are the white space and line terminators of Latin-1\<close>
  "is_space c \<longleftrightarrow>
     c \<in> {CHR 0x09, CHR 0x0A, CHR 0x0B, CHR 0x0C, CHR 0x0D, CHR 0x20, CHR 0xA0}"

definition lower_char :: "char \<Rightarrow> char" where
  \<comment> \<open>\<^verbatim>\<open>toLowerCase\<close> on one Latin-1 code unit: A-Z, and U+00C0-U+00DE except the
      multiplication sign U+00D7, move up by 32\<close>
  "lower_char c =
     (let n = of_char c :: nat
      in if (65 \<le> n \<and> n \<le> 90) \<or> (192 \<le> n \<and> n \<le> 222 \<and> n \<noteq> 215)
         then char_of (n + 32) else c)"

definition toLowerCase :: "string \<Rightarrow> string" where
  "toLowerCase s = map lower_char s"

definition trim :: "string \<Rightarrow> string" where
  "trim s = rev (dropWhile is_space (rev (dropWhile is_space s)))"

definition digit_val :: "char \<Rightarrow> int" where
  "digit_val c = int (of_char c) - 48"

definition parseInt :: "string \<Rightarrow> int" where
  \<comment> \<open>\<^verbatim>\<open>parseInt(ds, 10)\<close> and \<^verbatim>\<open>parseInt(ds)\<close> on a string of decimal digits, the only
      strings the source passes (each is a capture of \<^verbatim>\<open>(\d+)\<close>)\<close>
  "parseInt ds = foldl (\<lambda>a c. 10 * a + digit_val c) 0 ds"

section \<open>The unit tables\<close>

definition UNIT_NAMES_entries :: "(string \<times> string) list" where
  "UNIT_NAMES_entries =
    [(''s'', ''second''), (''sec'', ''second''), (''secs'', ''second''),
     (''second'', ''second''), (''seconds'', ''second''),
     (''m'', ''minute''), (''min'', ''minute''), (''mins'', ''minute''),
     (''minute'', ''minute''), (''minutes'', ''minute''),
     (''h'', ''hour''), (''hr'', ''hour''), (''hrs'', ''hour''),
     (''hour'', ''hour''), (''hours'', ''hour''),
     (''d'', ''day''), (''day'', ''day''), (''days'', ''day''),
     (''w'', ''week''), (''wk'', ''week''), (''wks'', ''week''),
     (''week'', ''week''), (''weeks'', ''week''),
     (''mo'', ''month''), (''month'', ''month''), (''months'', ''month''),
     (''y'', ''year''), (''yr'', ''year''), (''yrs'', ''year''),
     (''year'', ''year''), (''years'', ''year'')]"

definition Object_toString :: string where
  \<comment> \<open>what a template literal makes of the function \<^verbatim>\<open>Object\<close>\<close>
  "Object_toString = ''function Object() { [native code] }''"

definition UNIT_NAMES :: "string \<Rightarrow> string option" where
  \<comment> \<open>The property read \<^verbatim>\<open>UNIT_NAMES[key]\<close>, as the string the source goes on to use.
      \<^verbatim>\<open>UNIT_NAMES\<close> is an object literal, so a key that is not its own is looked up in
      \<^verbatim>\<open>Object.prototype\<close>. Every key the source reads is a lower-cased run of letters;
      the one property of \<^verbatim>\<open>Object.prototype\<close> with such a name is \<^verbatim>\<open>constructor\<close>, whose
      value (the function \<^verbatim>\<open>Object\<close>) is truthy. \<open>None\<close> is \<^verbatim>\<open>undefined\<close>.\<close>
  "UNIT_NAMES key =
     (case map_of UNIT_NAMES_entries key of
        Some unit \<Rightarrow> Some unit
      | None \<Rightarrow> if key = ''constructor'' then Some Object_toString else None)"

definition UNIT_SECONDS_entries :: "(string \<times> int) list" where
  "UNIT_SECONDS_entries =
    [(''second'', 1), (''minute'', 60), (''hour'', 3600), (''day'', 86400),
     (''week'', 604800), (''month'', 2592000), (''year'', 31536000)]"

definition UNIT_SECONDS :: "string \<Rightarrow> int option" where
  \<comment> \<open>\<^verbatim>\<open>UNIT_SECONDS[unit]\<close> for the values \<^const>\<open>UNIT_NAMES\<close> yields: none of them names a
      property of \<^verbatim>\<open>Object.prototype\<close>. Every entry is non-zero, hence truthy.\<close>
  "UNIT_SECONDS unit = map_of UNIT_SECONDS_entries unit"

section \<open>The regular expressions\<close>

text \<open>
  Each expression is anchored at both ends, and the classes that follow one another in
  it (\<^verbatim>\<open>\d\<close>, \<^verbatim>\<open>\s\<close>, letters, a sign) are pairwise disjoint. A greedy quantifier
  therefore takes the longest run of its class and backtracking never finds another
  match, so a match is computed run by run. Each function returns the captures.
\<close>

definition shorthandMatch :: "string \<Rightarrow> (string \<times> string \<times> string) option" where
  \<comment> \<open>\<^verbatim>\<open>/^([+-]?)(\d+)\s*([a-z]+)$/\<close>\<close>
  "shorthandMatch str =
     (let (sign, r0) =
            (case str of
               [] \<Rightarrow> ([], [])
             | c # r \<Rightarrow> if c = CHR ''+'' \<or> c = CHR ''-'' then ([c], r) else ([], str));
          num = takeWhile is_digit r0;
          unit = dropWhile is_space (dropWhile is_digit r0)
      in if num \<noteq> [] \<and> unit \<noteq> [] \<and> list_all is_lower unit
         then Some (sign, num, unit) else None)"

definition valueUnitMatch :: "string \<Rightarrow> (string \<times> string) option" where
  \<comment> \<open>the common tail \<^verbatim>\<open>(\d+)\s*([a-z]+)$\<close> under the flag \<^verbatim>\<open>i\<close>\<close>
  "valueUnitMatch r =
     (let num = takeWhile is_digit r;
          unit = dropWhile is_space (dropWhile is_digit r)
      in if num \<noteq> [] \<and> unit \<noteq> [] \<and> list_all is_letter unit
         then Some (num, unit) else None)"

definition nowRelativeMatch :: "string \<Rightarrow> (string \<times> string \<times> string) option" where
  \<comment> \<open>\<^verbatim>\<open>/^now\s*([+-])\s*(\d+)\s*([a-z]+)$/i\<close>\<close>
  "nowRelativeMatch str =
     (if toLowerCase (take 3 str) = ''now'' then
        (case dropWhile is_space (drop 3 str) of
           [] \<Rightarrow> None
         | c # r \<Rightarrow>
             if c = CHR ''+'' \<or> c = CHR ''-'' then
               (case valueUnitMatch (dropWhile is_space r) of
                  Some (num, unit) \<Rightarrow> Some ([c], num, unit)
                | None \<Rightarrow> None)
             else None)
      else None)"

definition agoMatch :: "string \<Rightarrow> (string \<times> string) option" where
  \<comment> \<open>\<^verbatim>\<open>/^(\d+)\s*([a-z]+)\s+ago$/i\<close>\<close>
  "agoMatch str =
     (let num = takeWhile is_digit str;
          r1 = dropWhile is_space (dropWhile is_digit str);
          unit = takeWhile is_letter r1;
          r2 = dropWhile is_letter r1
      in if num \<noteq> [] \<and> unit \<noteq> [] \<and> takeWhile is_space r2 \<noteq> []
            \<and> toLowerCase (dropWhile is_space r2) = ''ago''
         then Some (num, unit) else None)"

definition wordMatch :: "string \<Rightarrow> string \<Rightarrow> (string \<times> string) option" where
  \<comment> \<open>\<^verbatim>\<open>/^word\s+(\d+)\s*([a-z]+)$/i\<close> for the lower-case \<open>word\<close>\<close>
  "wordMatch word str =
     (if toLowerCase (take (length word) str) = word
         \<and> takeWhile is_space (drop (length word) str) \<noteq> []
      then valueUnitMatch (dropWhile is_space (drop (length word) str))
      else None)"

definition inMatch :: "string \<Rightarrow> (string \<times> string) option" where
  \<comment> \<open>\<^verbatim>\<open>/^in\s+(\d+)\s*([a-z]+)$/i\<close>\<close>
  "inMatch = wordMatch ''in''"

definition minusMatch :: "string \<Rightarrow> (string \<times> string) option" where
  \<comment> \<open>\<^verbatim>\<open>/^minus\s+(\d+)\s*([a-z]+)$/i\<close>\<close>
  "minusMatch = wordMatch ''minus''"

definition plusMatch :: "string \<Rightarrow> (string \<times> string) option" where
  \<comment> \<open>\<^verbatim>\<open>/^plus\s+(\d+)\s*([a-z]+)$/i\<close>\<close>
  "plusMatch = wordMatch ''plus''"

section \<open>The expression normalizer\<close>

definition plural :: "string \<Rightarrow> string" where
  \<comment> \<open>\<^verbatim>\<open>parseInt(num) === 1 ? '' : 's'\<close>\<close>
  "plural num = (if parseInt num = 1 then [] else ''s'')"

definition agoPhrase :: "(string \<times> string) option \<Rightarrow> string option" where
  \<comment> \<open>the body of the branches for \<^verbatim>\<open>agoMatch\<close> and \<^verbatim>\<open>minusMatch\<close>: the phrase returned,
      or \<open>None\<close> when control falls out of the branch\<close>
  "agoPhrase m =
     (case m of
        None \<Rightarrow> None
      | Some (num, u) \<Rightarrow>
          (case UNIT_NAMES (toLowerCase u) of
             None \<Rightarrow> None
           | Some unit \<Rightarrow> Some (num @ '' '' @ unit @ plural num @ '' ago'')))"

definition inPhrase :: "(string \<times> string) option \<Rightarrow> string option" where
  \<comment> \<open>the body of the branches for \<^verbatim>\<open>inMatch\<close> and \<^verbatim>\<open>plusMatch\<close>\<close>
  "inPhrase m =
     (case m of
        None \<Rightarrow> None
      | Some (num, u) \<Rightarrow>
          (case UNIT_NAMES (toLowerCase u) of
             None \<Rightarrow> None
           | Some unit \<Rightarrow> Some (''in '' @ num @ '' '' @ unit @ plural num)))"

definition normalizeInput :: "string \<Rightarrow> string" where
  "normalizeInput str =
     (case agoPhrase (agoMatch str) of
        Some r \<Rightarrow> r
      | None \<Rightarrow>
     (case inPhrase (inMatch str) of
        Some r \<Rightarrow> r
      | None \<Rightarrow>
     (case agoPhrase (minusMatch str) of
        Some r \<Rightarrow> r
      | None \<Rightarrow>
     (case inPhrase (plusMatch str) of
        Some r \<Rightarrow> r
      | None \<Rightarrow> str))))"

section \<open>The resolver\<close>

datatype DatetimeInput = Num rat | Str string

datatype error = Error string

text \<open>
  What the resolver reads from its surroundings. The clock is read by \<^verbatim>\<open>Date.now()\<close>
  when the resolution starts; \<^verbatim>\<open>chrono.parseDate\<close> is called with the text alone and
  takes \<^verbatim>\<open>new Date()\<close>, read when it is called, as its reference instant. The library
  itself is a parameter: from a text and a reference instant to an instant, all in
  milliseconds, or nothing. \<^verbatim>\<open>Date.parse\<close> is used by the earlier revision only.
\<close>

record env =
  Date_now :: int
  new_Date :: int
  chrono_parseDate :: "string \<Rightarrow> int \<Rightarrow> int option"
  Date_parse :: "string \<Rightarrow> int option"

definition now :: "env \<Rightarrow> int" where
  \<comment> \<open>\<^verbatim>\<open>Math.floor(Date.now() / 1000)\<close>\<close>
  "now e = Date_now e div 1000"

definition message :: "string \<Rightarrow> string" where
  \<open>message input =
     ''Invalid datetime format: "'' @ input @ ''". Supported formats: '' @
     ''epoch seconds, shorthand (-1d, 2h, +1w), relative (now-1h), '' @
     ''natural language (yesterday, 5 days ago, last Friday, in 2 weeks), ISO 8601''\<close>

definition shorthandOffset :: "int \<Rightarrow> string \<Rightarrow> int option" where
  \<comment> \<open>lines 134-146: the value returned, or \<open>None\<close> when control leaves the branch\<close>
  "shorthandOffset t str =
     (case shorthandMatch str of
        None \<Rightarrow> None
      | Some (sign, num, u) \<Rightarrow>
          if CHR '' '' \<in> set str then None
          else
            (case UNIT_NAMES (toLowerCase u) of
               None \<Rightarrow> None
             | Some unit \<Rightarrow>
                 (case UNIT_SECONDS unit of
                    None \<Rightarrow> None
                  | Some secs \<Rightarrow>
                      Some (t + (if sign = ''+'' then 1 else - 1) * parseInt num * secs))))"

definition nowRelativeOffset :: "int \<Rightarrow> string \<Rightarrow> int option" where
  \<comment> \<open>lines 149-159\<close>
  "nowRelativeOffset t str =
     (case nowRelativeMatch str of
        None \<Rightarrow> None
      | Some (sign, num, u) \<Rightarrow>
          (case UNIT_NAMES (toLowerCase u) of
             None \<Rightarrow> None
           | Some unit \<Rightarrow>
               (case UNIT_SECONDS unit of
                  None \<Rightarrow> None
                | Some secs \<Rightarrow>
                    Some (t + (if sign = ''-'' then - 1 else 1) * parseInt num * secs))))"

definition naturalLanguage :: "env \<Rightarrow> string \<Rightarrow> string \<Rightarrow> error + rat" where
  \<comment> \<open>lines 161-174, for the original \<open>input\<close> and its trimmed, lower-cased form \<open>str\<close>:
      normalize, ask chrono, floor to seconds, or throw\<close>
  "naturalLanguage e input str =
     (case chrono_parseDate e (normalizeInput str) (new_Date e) of
        Some parsed \<Rightarrow> Inr (of_int (parsed div 1000))
      | None \<Rightarrow> Inl (Error (message input)))"

definition parseDatetime :: "env \<Rightarrow> DatetimeInput \<Rightarrow> error + rat" where
  "parseDatetime e input =
     (case input of
        Num n \<Rightarrow> Inr n
      | Str s \<Rightarrow>
          (let t = now e; str = toLowerCase (trim s)
           in if str = ''now'' then Inr (of_int t)
              else
                (case shorthandOffset t str of
                   Some v \<Rightarrow> Inr (of_int v)
                 | None \<Rightarrow>
                (case nowRelativeOffset t str of
                   Some v \<Rightarrow> Inr (of_int v)
                 | None \<Rightarrow> naturalLanguage e s str))))"

section \<open>The earlier revision of the resolver\<close>

text \<open>
  \<^verbatim>\<open>src/unnamed/part_002\<close> is the parser before chrono was introduced; its function has
  the same name, so the model calls it \<open>parseDatetime_prior\<close>.
\<close>

definition relativeMatch :: "string \<Rightarrow> (string \<times> string) option" where
  \<comment> \<open>\<^verbatim>\<open>/^now-(\d+)([smhdw])$/\<close>\<close>
  "relativeMatch str =
     (if take 4 str = ''now-'' then
        (let num = takeWhile is_digit (drop 4 str)
         in case dropWhile is_digit (drop 4 str) of
              [u] \<Rightarrow> if num \<noteq> [] \<and> u \<in> set ''smhdw'' then Some (num, [u]) else None
            | _ \<Rightarrow> None)
      else None)"

definition multipliers :: "string \<Rightarrow> int option" where
  "multipliers unit =
     map_of [(''s'', 1), (''m'', 60), (''h'', 3600), (''d'', 86400), (''w'', 604800)] unit"

definition message_prior :: "string \<Rightarrow> string" where
  \<open>message_prior input =
     ''Invalid datetime format: "'' @ input @ ''". Supported formats: '' @
     ''epoch seconds (number), relative time (now-1h, now-7d), '' @
     ''ISO 8601 (2025-11-28T12:00:00Z), shortcuts (yesterday, today, last week, last month)''\<close>

definition setUTCHours0 :: "int \<Rightarrow> int" where
  \<comment> \<open>\<^verbatim>\<open>setUTCHours(0, 0, 0, 0)\<close> on a time value in milliseconds\<close>
  "setUTCHours0 ms = ms - ms mod 86400000"

definition parseDatetime_prior :: "env \<Rightarrow> DatetimeInput \<Rightarrow> error + rat" where
  \<comment> \<open>\<^verbatim>\<open>multipliers[unit]\<close> is defined for every unit the expression captures; the branch
      for \<open>None\<close> is never taken (lemma \<open>relativeMatch_multipliers\<close>)\<close>
  "parseDatetime_prior e input =
     (case input of
        Num n \<Rightarrow> Inr n
      | Str s \<Rightarrow>
          (let t = now e; str = toLowerCase (trim s)
           in if str = ''now'' then Inr (of_int t)
              else
                (case relativeMatch str of
                   Some (num, unit) \<Rightarrow>
                     (case multipliers unit of
                        Some m \<Rightarrow> Inr (of_int (t - parseInt num * m))
                      | None \<Rightarrow> Inl (Error []))
                 | None \<Rightarrow>
                     if str = ''yesterday''
                       then Inr (of_int (setUTCHours0 (new_Date e - 86400000) div 1000))
                     else if str = ''today''
                       then Inr (of_int (setUTCHours0 (new_Date e) div 1000))
                     else if str = ''last week'' then Inr (of_int (t - 7 * 86400))
                     else if str = ''last month'' then Inr (of_int (t - 30 * 86400))
                     else
                       (case Date_parse e s of
                          Some parsed \<Rightarrow> Inr (of_int (parsed div 1000))
                        | None \<Rightarrow> Inl (Error (message_prior s))))))"

section \<open>The language of each regular expression\<close>

text \<open>
  What it means for the whole string to match, with the captures named: the
  declarative reading of the expressions, against which the run-by-run matchers
  above are checked.
\<close>

definition matches_shorthand :: "string \<Rightarrow> string \<Rightarrow> string \<Rightarrow> string \<Rightarrow> bool" where
  "matches_shorthand str sign num u \<longleftrightarrow>
     (\<exists>w. str = sign @ num @ w @ u \<and> sign \<in> {[], ''+'', ''-''}
        \<and> num \<noteq> [] \<and> list_all is_digit num \<and> list_all is_space w
        \<and> u \<noteq> [] \<and> list_all is_lower u)"

definition matches_nowRelative :: "string \<Rightarrow> string \<Rightarrow> string \<Rightarrow> string \<Rightarrow> bool" where
  "matches_nowRelative str sign num u \<longleftrightarrow>
     (\<exists>k w1 w2 w3. str = k @ w1 @ sign @ w2 @ num @ w3 @ u \<and> toLowerCase k = ''now''
        \<and> sign \<in> {''+'', ''-''}
        \<and> list_all is_space w1 \<and> list_all is_space w2 \<and> list_all is_space w3
        \<and> num \<noteq> [] \<and> list_all is_digit num \<and> u \<noteq> [] \<and> list_all is_letter u)"

definition matches_ago :: "string \<Rightarrow> string \<Rightarrow> string \<Rightarrow> bool" where
  "matches_ago str num u \<longleftrightarrow>
     (\<exists>w sp a. str = num @ w @ u @ sp @ a \<and> toLowerCase a = ''ago''
        \<and> num \<noteq> [] \<and> list_all is_digit num \<and> list_all is_space w
        \<and> u \<noteq> [] \<and> list_all is_letter u \<and> sp \<noteq> [] \<and> list_all is_space sp)"

definition matches_word :: "string \<Rightarrow> string \<Rightarrow> string \<Rightarrow> string \<Rightarrow> bool" where
  "matches_word word str num u \<longleftrightarrow>
     (\<exists>k sp w. str = k @ sp @ num @ w @ u \<and> toLowerCase k = word
        \<and> sp \<noteq> [] \<and> list_all is_space sp
        \<and> num \<noteq> [] \<and> list_all is_digit num \<and> list_all is_space w
        \<and> u \<noteq> [] \<and> list_all is_letter u)"

section \<open>Sample surroundings\<close>

definition echo_parser :: "string \<Rightarrow> int \<Rightarrow> int option" where
  \<comment> \<open>a natural-language parser that knows one phrase, and answers it with its
      reference instant\<close>
  "echo_parser text ref = (if text = ''right now'' then Some ref else None)"

definition no_Date_parse :: "string \<Rightarrow> int option" where
  "no_Date_parse text = None"

definition sample_env :: env where
  \<comment> \<open>the clock passes from 12:00:00.999 to 12:00:01.000 (UTC, 2024-11-28) between the
      two readings\<close>
  "sample_env =
     \<lparr>Date_now = 1732800000999, new_Date = 1732800001000,
      chrono_parseDate = echo_parser, Date_parse = no_Date_parse\<rparr>"

section \<open>Character classes\<close>

lemma char_eq_code: "c = d \<longleftrightarrow> (of_char c :: nat) = of_char d"
  by simp

lemma of_char_lt: "of_char c < (256::nat)"
  by (metis of_char_mod_256 mod_less_divisor zero_less_numeral)

lemma digit_code: "is_digit c \<longleftrightarrow> 48 \<le> (of_char c :: nat) \<and> (of_char c :: nat) \<le> 57"
  unfolding is_digit_def by (simp add: char_eq_code[of c]) arith

lemma lower_code: "is_lower c \<longleftrightarrow> 97 \<le> (of_char c :: nat) \<and> (of_char c :: nat) \<le> 122"
  unfolding is_lower_def by (simp add: char_eq_code[of c]) arith

lemma upper_code: "is_upper c \<longleftrightarrow> 65 \<le> (of_char c :: nat) \<and> (of_char c :: nat) \<le> 90"
  unfolding is_upper_def by (simp add: char_eq_code[of c]) arith

lemma space_code: "is_space c \<longleftrightarrow> (of_char c :: nat) \<in> {9, 10, 11, 12, 13, 32, 160}"
  unfolding is_space_def by (simp add: char_eq_code[of c])

lemma lower_char_code:
  "(of_char (lower_char c) :: nat) =
     (if (65 \<le> (of_char c :: nat) \<and> (of_char c :: nat) \<le> 90)
         \<or> (192 \<le> (of_char c :: nat) \<and> (of_char c :: nat) \<le> 222 \<and> (of_char c :: nat) \<noteq> 215)
      then of_char c + 32 else of_char c)"
  using of_char_lt[of c] by (auto simp: lower_char_def Let_def)

lemmas class_codes = digit_code lower_code upper_code space_code is_letter_def

lemma digit_not_space: "is_digit c \<Longrightarrow> \<not> is_space c"
  by (auto simp: class_codes)
lemma digit_not_letter: "is_digit c \<Longrightarrow> \<not> is_letter c"
  by (auto simp: class_codes)
lemma letter_not_space: "is_letter c \<Longrightarrow> \<not> is_space c"
  by (auto simp: class_codes)
lemma sign_code: "c = CHR ''+'' \<or> c = CHR ''-'' \<longleftrightarrow> (of_char c :: nat) = 43 \<or> (of_char c :: nat) = 45"
  by (simp add: char_eq_code[of c])
lemma lower_is_letter: "is_lower c \<Longrightarrow> is_letter c"
  by (simp add: is_letter_def)

lemma lower_char_fix: "is_lower c \<or> is_digit c \<or> is_space c \<or> c = CHR ''+'' \<or> c = CHR ''-'' \<Longrightarrow> lower_char c = c"
  by (subst char_eq_code) (auto simp: class_codes lower_char_code char_eq_code[of c])
lemma lower_char_idem: "lower_char (lower_char c) = lower_char c"
  by (subst char_eq_code) (simp add: lower_char_code)
lemma is_space_lower_char: "is_space (lower_char c) = is_space c"
  by (auto simp: space_code lower_char_code)
lemma is_lower_lower_char: "is_lower (lower_char c) = is_letter c"
  using of_char_lt[of c] by (auto simp: class_codes lower_char_code)
section \<open>Runs, trimming and lower-casing\<close>

lemma takeWhile_run:
  "list_all P xs \<Longrightarrow> ys = [] \<or> \<not> P (hd ys) \<Longrightarrow> takeWhile P (xs @ ys) = xs"
  by (induction xs) (auto simp: takeWhile_eq_Nil_iff)

lemma dropWhile_run:
  "list_all P xs \<Longrightarrow> ys = [] \<or> \<not> P (hd ys) \<Longrightarrow> dropWhile P (xs @ ys) = ys"
  by (induction xs) (auto simp: dropWhile_eq_self_iff)

lemma list_all_weaken: "list_all P xs \<Longrightarrow> (\<And>x. P x \<Longrightarrow> Q x) \<Longrightarrow> list_all Q xs"
  by (induction xs) auto

lemma toLowerCase_fix:
  "list_all (\<lambda>c. is_lower c \<or> is_digit c \<or> is_space c \<or> c = CHR ''+'' \<or> c = CHR ''-'') s
   \<Longrightarrow> toLowerCase s = s"
  unfolding toLowerCase_def by (induction s) (auto simp: lower_char_fix)

lemma toLowerCase_idem: "toLowerCase (toLowerCase s) = toLowerCase s"
  by (simp add: toLowerCase_def lower_char_idem)

lemma dropWhile_space_lower:
  "dropWhile is_space (toLowerCase s) = toLowerCase (dropWhile is_space s)"
  unfolding toLowerCase_def by (induction s) (auto simp: is_space_lower_char)

lemma trim_toLowerCase: "trim (toLowerCase s) = toLowerCase (trim s)"
proof -
  have r: "rev (toLowerCase s) = toLowerCase (rev s)" for s
    by (simp add: toLowerCase_def rev_map)
  show ?thesis
    by (simp add: trim_def dropWhile_space_lower r)
qed

lemma trim_fix:
  assumes "s = [] \<or> (\<not> is_space (hd s) \<and> \<not> is_space (last s))"
  shows "trim s = s"
proof (cases "s = []")
  case True
  then show ?thesis by (simp add: trim_def)
next
  case False
  with assms have h: "\<not> is_space (hd s)" and l: "\<not> is_space (last s)" by auto
  have 1: "dropWhile is_space s = s"
    using h by (simp add: dropWhile_eq_self_iff)
  have "\<not> is_space (hd (rev s))"
    using l False by (simp add: hd_rev)
  then have 2: "dropWhile is_space (rev s) = rev s"
    by (simp add: dropWhile_eq_self_iff)
  show ?thesis by (simp add: trim_def 1 2)
qed

lemma trim_idem: "trim (trim s) = trim s"
proof -
  define d1 where "d1 = dropWhile is_space s"
  define d2 where "d2 = dropWhile is_space (rev d1)"
  have t: "trim s = rev d2" by (simp add: trim_def d1_def d2_def)
  have "rev d2 = [] \<or> (\<not> is_space (hd (rev d2)) \<and> \<not> is_space (last (rev d2)))"
  proof (cases "d2 = []")
    case True
    then show ?thesis by simp
  next
    case False
    then have a: "\<not> is_space (hd d2)"
      unfolding d2_def using hd_dropWhile by blast
    have "rev d1 = takeWhile is_space (rev d1) @ d2"
      by (simp add: d2_def)
    then have "last (rev d1) = last d2"
      using False by (metis last_appendR)
    moreover have "d1 \<noteq> []" using False by (auto simp: d2_def)
    ultimately have "last d2 = hd d1" by (simp add: last_rev)
    moreover have "\<not> is_space (hd d1)"
      using \<open>d1 \<noteq> []\<close> unfolding d1_def using hd_dropWhile by blast
    ultimately show ?thesis using a False by (simp add: hd_rev last_rev)
  qed
  then show ?thesis unfolding t by (rule trim_fix)
qed

lemma normal_form_idem:
  "toLowerCase (trim (toLowerCase (trim s))) = toLowerCase (trim s)"
  by (simp add: trim_toLowerCase trim_idem toLowerCase_idem)

section \<open>The matchers compute the languages of the expressions\<close>

lemma list_all_takeWhile: "list_all P (takeWhile P xs)"
  by (induction xs) auto

lemma hd_run_not:
  "list_all Q xs \<Longrightarrow> (\<And>c. Q c \<Longrightarrow> \<not> P c) \<Longrightarrow> ys \<noteq> [] \<Longrightarrow> \<not> P (hd ys) \<Longrightarrow> \<not> P (hd (xs @ ys))"
  by (cases xs) auto

lemma letters_hd: "u \<noteq> [] \<Longrightarrow> list_all is_letter u \<Longrightarrow> is_letter (hd u)"
  by (cases u) auto

lemma valueUnitMatch_concat:
  assumes "num \<noteq> []" "list_all is_digit num" "list_all is_space w"
    "u \<noteq> []" "list_all is_letter u"
  shows "valueUnitMatch (num @ w @ u) = Some (num, u)"
proof -
  have l: "is_letter (hd u)" using assms by (simp add: letters_hd)
  have "\<not> is_digit (hd (w @ u))"
    using assms(3) _ assms(4) by (rule hd_run_not) (use l digit_not_space digit_not_letter in auto)
  then have 1: "takeWhile is_digit (num @ w @ u) = num"
    and 2: "dropWhile is_digit (num @ w @ u) = w @ u"
    using assms(2) by (simp_all add: takeWhile_run dropWhile_run)
  have 3: "dropWhile is_space (w @ u) = u"
    using assms(3) l by (simp add: dropWhile_run letter_not_space)
  show ?thesis
    unfolding valueUnitMatch_def Let_def 1 2 3 using assms by simp
qed

lemma valueUnitMatch_Some:
  assumes "valueUnitMatch r = Some (num, u)"
  shows "\<exists>w. r = num @ w @ u \<and> num \<noteq> [] \<and> list_all is_digit num \<and> list_all is_space w
            \<and> u \<noteq> [] \<and> list_all is_letter u"
proof -
  from assms have n: "num = takeWhile is_digit r"
    and u: "u = dropWhile is_space (dropWhile is_digit r)"
    and c: "num \<noteq> []" "u \<noteq> []" "list_all is_letter u"
    by (auto simp: valueUnitMatch_def Let_def split: if_splits)
  let ?w = "takeWhile is_space (dropWhile is_digit r)"
  have "r = num @ ?w @ u" by (simp add: n u)
  moreover have "list_all is_digit num" "list_all is_space ?w"
    by (simp_all add: n list_all_takeWhile)
  ultimately show ?thesis using c by blast
qed

lemma shorthandMatch_iff:
  "shorthandMatch str = Some (sign, num, u) \<longleftrightarrow> matches_shorthand str sign num u"
proof
  assume m: "matches_shorthand str sign num u"
  then obtain w where s: "str = sign @ num @ w @ u" and sg: "sign \<in> {[], ''+'', ''-''}"
    and a: "num \<noteq> []" "list_all is_digit num" "list_all is_space w" "u \<noteq> []" "list_all is_lower u"
    unfolding matches_shorthand_def by blast
  have l: "is_letter (hd u)" using a by (cases u) (auto simp: lower_is_letter)
  have "\<not> is_digit (hd (w @ u))"
    using a(3) _ a(4) by (rule hd_run_not) (use l digit_not_space digit_not_letter in auto)
  then have 1: "takeWhile is_digit (num @ w @ u) = num"
    and 2: "dropWhile is_digit (num @ w @ u) = w @ u"
    using a(2) by (simp_all add: takeWhile_run dropWhile_run)
  have 3: "dropWhile is_space (w @ u) = u"
    using a(3) l by (simp add: dropWhile_run letter_not_space)
  have d: "is_digit (hd num)" using a by (cases num) auto
  have 4: "(case str of [] \<Rightarrow> ([], []) | c # r \<Rightarrow> if c = CHR ''+'' \<or> c = CHR ''-'' then ([c], r) else ([], str))
            = (sign, num @ w @ u)"
  proof (cases "sign = []")
    case True
    then show ?thesis using s a(1) d by (cases num) (auto simp: digit_code char_eq_code[of _ "CHR ''+''"] char_eq_code[of _ "CHR ''-''"])
  next
    case False
    then show ?thesis using s sg by auto
  qed
  show "shorthandMatch str = Some (sign, num, u)"
    unfolding shorthandMatch_def 4 Let_def prod.case 1 2 3 using a by simp
next
  assume h: "shorthandMatch str = Some (sign, num, u)"
  define r0 where "r0 = (if str \<noteq> [] \<and> (hd str = CHR ''+'' \<or> hd str = CHR ''-'') then tl str else str)"
  have p: "(case str of [] \<Rightarrow> ([], []) | c # r \<Rightarrow> if c = CHR ''+'' \<or> c = CHR ''-'' then ([c], r) else ([], str))
            = (if str \<noteq> [] \<and> (hd str = CHR ''+'' \<or> hd str = CHR ''-'') then [hd str] else [], r0)"
    by (cases str) (auto simp: r0_def)
  from h have sg: "sign = (if str \<noteq> [] \<and> (hd str = CHR ''+'' \<or> hd str = CHR ''-'') then [hd str] else [])"
    and n: "num = takeWhile is_digit r0"
    and u: "u = dropWhile is_space (dropWhile is_digit r0)"
    and c: "num \<noteq> []" "u \<noteq> []" "list_all is_lower u"
    unfolding shorthandMatch_def p by (auto simp: Let_def split: if_splits)
  let ?w = "takeWhile is_space (dropWhile is_digit r0)"
  have "str = sign @ r0" by (cases str) (auto simp: sg r0_def)
  moreover have "r0 = num @ ?w @ u" by (simp add: n u)
  moreover have "list_all is_digit num" "list_all is_space ?w"
    by (simp_all add: n list_all_takeWhile)
  moreover have "sign \<in> {[], ''+'', ''-''}" by (auto simp: sg)
  ultimately show "matches_shorthand str sign num u"
    unfolding matches_shorthand_def using c by blast
qed

lemma toLowerCase_length: "toLowerCase k = word \<Longrightarrow> length k = length word"
  by (auto simp: toLowerCase_def)

lemma digits_hd: "num \<noteq> [] \<Longrightarrow> list_all is_digit num \<Longrightarrow> is_digit (hd num)"
  by (cases num) auto

lemma spaces_hd: "sp \<noteq> [] \<Longrightarrow> list_all is_space sp \<Longrightarrow> is_space (hd sp)"
  by (cases sp) auto

lemma nowRelativeMatch_iff:
  "nowRelativeMatch str = Some (sign, num, u) \<longleftrightarrow> matches_nowRelative str sign num u"
proof
  assume "matches_nowRelative str sign num u"
  then obtain k w1 w2 w3 where s: "str = k @ w1 @ sign @ w2 @ num @ w3 @ u"
    and k: "toLowerCase k = ''now''" and sg: "sign \<in> {''+'', ''-''}"
    and w: "list_all is_space w1" "list_all is_space w2" "list_all is_space w3"
    and a: "num \<noteq> []" "list_all is_digit num" "u \<noteq> []" "list_all is_letter u"
    unfolding matches_nowRelative_def by blast
  obtain c where c: "sign = [c]" "c = CHR ''+'' \<or> c = CHR ''-''" using sg by auto
  have "length k = 3" using k by (auto dest: toLowerCase_length)
  then have 1: "take 3 str = k" and 2: "drop 3 str = w1 @ c # w2 @ num @ w3 @ u"
    by (simp_all add: s c)
  have "\<not> is_space c" using c(2) by (auto simp: space_code)
  then have 3: "dropWhile is_space (w1 @ c # w2 @ num @ w3 @ u) = c # w2 @ num @ w3 @ u"
    using w(1) by (simp add: dropWhile_run)
  have "\<not> is_space (hd (num @ w3 @ u))"
    using a digits_hd[of num] digit_not_space by auto
  then have 4: "dropWhile is_space (w2 @ num @ w3 @ u) = num @ w3 @ u"
    using w(2) by (simp add: dropWhile_run)
  have 5: "valueUnitMatch (num @ w3 @ u) = Some (num, u)"
    using a w(3) by (simp add: valueUnitMatch_concat)
  show "nowRelativeMatch str = Some (sign, num, u)"
    unfolding nowRelativeMatch_def 1 2 3 k using c by (simp add: 4 5)
next
  assume h: "nowRelativeMatch str = Some (sign, num, u)"
  then have k: "toLowerCase (take 3 str) = ''now''"
    by (auto simp: nowRelativeMatch_def split: if_splits)
  let ?w1 = "takeWhile is_space (drop 3 str)"
  from h k obtain c r where d: "dropWhile is_space (drop 3 str) = c # r"
    and c: "c = CHR ''+'' \<or> c = CHR ''-''"
    and v: "valueUnitMatch (dropWhile is_space r) = Some (num, u)" and sg: "sign = [c]"
    by (auto simp: nowRelativeMatch_def split: if_splits list.splits option.splits)
  let ?w2 = "takeWhile is_space r"
  from valueUnitMatch_Some[OF v] obtain w3 where
    r: "dropWhile is_space r = num @ w3 @ u" and a: "num \<noteq> []" "list_all is_digit num"
      "list_all is_space w3" "u \<noteq> []" "list_all is_letter u"
    by blast
  have "r = ?w2 @ num @ w3 @ u" using r by (metis takeWhile_dropWhile_id)
  moreover have "drop 3 str = ?w1 @ c # r" using d by (metis takeWhile_dropWhile_id)
  moreover have "str = take 3 str @ drop 3 str" by simp
  ultimately have "str = take 3 str @ ?w1 @ sign @ ?w2 @ num @ w3 @ u"
    using sg by simp
  moreover have "list_all is_space ?w1" "list_all is_space ?w2"
    by (simp_all add: list_all_takeWhile)
  moreover have "sign \<in> {''+'', ''-''}" using sg c by auto
  ultimately show "matches_nowRelative str sign num u"
    unfolding matches_nowRelative_def using k a by blast
qed

lemma ago_letters: "toLowerCase a = ''ago'' \<Longrightarrow> a \<noteq> [] \<and> is_letter (hd a)"
proof -
  assume h: "toLowerCase a = ''ago''"
  then obtain c r where a: "a = c # r" and "lower_char c = CHR ''a''"
    by (cases a) (auto simp: toLowerCase_def)
  then have "is_lower (lower_char c)" by (simp add: is_lower_def)
  then show ?thesis using a by (simp add: is_lower_lower_char)
qed

lemma agoMatch_iff: "agoMatch str = Some (num, u) \<longleftrightarrow> matches_ago str num u"
proof
  assume "matches_ago str num u"
  then obtain w sp a where s: "str = num @ w @ u @ sp @ a" and g: "toLowerCase a = ''ago''"
    and a: "num \<noteq> []" "list_all is_digit num" "list_all is_space w"
      "u \<noteq> []" "list_all is_letter u" "sp \<noteq> []" "list_all is_space sp"
    unfolding matches_ago_def by blast
  have lu: "is_letter (hd u)" using a by (simp add: letters_hd)
  have la: "a \<noteq> []" "is_letter (hd a)" using ago_letters[OF g] by auto
  have hs: "is_space (hd sp)" using a by (simp add: spaces_hd)
  have "\<not> is_digit (hd (w @ u @ sp @ a))"
    using a(3) by (rule hd_run_not) (use a lu digit_not_space digit_not_letter in auto)
  then have 1: "takeWhile is_digit str = num"
    and 2: "dropWhile is_digit str = w @ u @ sp @ a"
    using a(2) unfolding s by (simp_all add: takeWhile_run dropWhile_run)
  have 3: "dropWhile is_space (w @ u @ sp @ a) = u @ sp @ a"
    using a(3,4) lu by (simp add: dropWhile_run letter_not_space)
  have "\<not> is_letter (hd (sp @ a))" using a(6) hs letter_not_space by auto
  then have 4: "takeWhile is_letter (u @ sp @ a) = u"
    and 5: "dropWhile is_letter (u @ sp @ a) = sp @ a"
    using a(5) by (simp_all add: takeWhile_run dropWhile_run)
  have 6: "takeWhile is_space (sp @ a) = sp" and 7: "dropWhile is_space (sp @ a) = a"
    using a(7) la by (simp_all add: takeWhile_run dropWhile_run letter_not_space)
  show "agoMatch str = Some (num, u)"
    unfolding agoMatch_def Let_def 1 2 3 4 5 6 7 using a g by simp
next
  assume h: "agoMatch str = Some (num, u)"
  define r1 where "r1 = dropWhile is_space (dropWhile is_digit str)"
  define r2 where "r2 = dropWhile is_letter r1"
  from h have n: "num = takeWhile is_digit str" and u: "u = takeWhile is_letter r1"
    and c: "num \<noteq> []" "u \<noteq> []" "takeWhile is_space r2 \<noteq> []"
      "toLowerCase (dropWhile is_space r2) = ''ago''"
    unfolding agoMatch_def Let_def r1_def r2_def by (auto split: if_splits)
  let ?w = "takeWhile is_space (dropWhile is_digit str)"
  have "str = num @ ?w @ r1" by (simp add: n r1_def)
  moreover have "r1 = u @ r2" by (simp add: u r2_def)
  moreover have "r2 = takeWhile is_space r2 @ dropWhile is_space r2" by simp
  ultimately have "str = num @ ?w @ u @ takeWhile is_space r2 @ dropWhile is_space r2"
    by simp
  moreover have "list_all is_digit num" "list_all is_space ?w" "list_all is_letter u"
    "list_all is_space (takeWhile is_space r2)"
    by (simp_all add: n u list_all_takeWhile)
  ultimately show "matches_ago str num u"
    unfolding matches_ago_def using c by blast
qed

lemma wordMatch_iff: "wordMatch word str = Some (num, u) \<longleftrightarrow> matches_word word str num u"
proof
  assume "matches_word word str num u"
  then obtain k sp w where s: "str = k @ sp @ num @ w @ u" and k: "toLowerCase k = word"
    and a: "sp \<noteq> []" "list_all is_space sp" "num \<noteq> []" "list_all is_digit num"
      "list_all is_space w" "u \<noteq> []" "list_all is_letter u"
    unfolding matches_word_def by blast
  have "length k = length word" using k by (rule toLowerCase_length)
  then have 1: "take (length word) str = k" and 2: "drop (length word) str = sp @ num @ w @ u"
    by (simp_all add: s)
  have "\<not> is_space (hd (num @ w @ u))"
    using a digits_hd[of num] digit_not_space by auto
  then have 3: "takeWhile is_space (sp @ num @ w @ u) = sp"
    and 4: "dropWhile is_space (sp @ num @ w @ u) = num @ w @ u"
    using a(2) by (simp_all add: takeWhile_run dropWhile_run)
  show "wordMatch word str = Some (num, u)"
    unfolding wordMatch_def 1 2 3 4 using a k by (simp add: valueUnitMatch_concat)
next
  assume h: "wordMatch word str = Some (num, u)"
  let ?r = "drop (length word) str"
  from h have k: "toLowerCase (take (length word) str) = word"
    and sp: "takeWhile is_space ?r \<noteq> []"
    and v: "valueUnitMatch (dropWhile is_space ?r) = Some (num, u)"
    by (auto simp: wordMatch_def split: if_splits)
  from valueUnitMatch_Some[OF v] obtain w where
    r: "dropWhile is_space ?r = num @ w @ u" and a: "num \<noteq> []" "list_all is_digit num"
      "list_all is_space w" "u \<noteq> []" "list_all is_letter u"
    by blast
  have "?r = takeWhile is_space ?r @ num @ w @ u" using r by (metis takeWhile_dropWhile_id)
  then have "str = take (length word) str @ takeWhile is_space ?r @ num @ w @ u"
    by (metis append_take_drop_id)
  moreover have "list_all is_space (takeWhile is_space ?r)" by (simp add: list_all_takeWhile)
  ultimately show "matches_word word str num u"
    unfolding matches_word_def using k sp a by blast
qed

section \<open>Which tier resolves an input\<close>

lemma own_keys:
  "map_of UNIT_NAMES_entries u = Some unit \<Longrightarrow>
     u \<noteq> [] \<and> list_all is_lower u
     \<and> unit \<in> set [''second'', ''minute'', ''hour'', ''day'', ''week'', ''month'', ''year'']"
  by (auto simp: UNIT_NAMES_entries_def is_lower_def split: if_splits)

lemma own_key_lookup: "map_of UNIT_NAMES_entries u = Some unit \<Longrightarrow> UNIT_NAMES u = Some unit"
  by (simp add: UNIT_NAMES_def)

lemma own_unit_seconds:
  "map_of UNIT_NAMES_entries u = Some unit \<Longrightarrow> \<exists>secs. UNIT_SECONDS unit = Some secs"
  by (drule own_keys) (auto simp: UNIT_SECONDS_def UNIT_SECONDS_entries_def)

lemma toLowerCase_lower: "list_all is_lower u \<Longrightarrow> toLowerCase u = u"
  by (rule toLowerCase_fix) (auto elim: list_all_weaken)

lemma resolve_now: "toLowerCase (trim s) = ''now'' \<Longrightarrow> parseDatetime e (Str s) = Inr (of_int (now e))"
  by (simp add: parseDatetime_def)


lemma resolve_nowRelative:
  "toLowerCase (trim s) = str \<Longrightarrow> str \<noteq> ''now'' \<Longrightarrow> shorthandOffset (now e) str = None
   \<Longrightarrow> nowRelativeOffset (now e) str = Some v
   \<Longrightarrow> parseDatetime e (Str s) = Inr (of_int v)"
  by (simp add: parseDatetime_def)

lemma resolve_naturalLanguage:
  "toLowerCase (trim s) = str \<Longrightarrow> str \<noteq> ''now'' \<Longrightarrow> shorthandOffset (now e) str = None
   \<Longrightarrow> nowRelativeOffset (now e) str = None
   \<Longrightarrow> parseDatetime e (Str s) = naturalLanguage e s str"
  by (simp add: parseDatetime_def)

lemma matches_shorthand_hd:
  "matches_shorthand str sign num u \<Longrightarrow>
     str \<noteq> [] \<and> (is_digit (hd str) \<or> hd str = CHR ''+'' \<or> hd str = CHR ''-'')"
  unfolding matches_shorthand_def using digits_hd by (cases num) auto


lemma shorthandOffset_letter_start:
  assumes "str \<noteq> []" "is_letter (hd str)"
  shows "shorthandOffset t str = None"
proof -
  have "shorthandMatch str = None"
  proof (cases "shorthandMatch str")
    case (Some p)
    obtain sign num u where "p = (sign, num, u)" by (cases p) auto
    with Some have "matches_shorthand str sign num u" by (simp add: shorthandMatch_iff)
    from matches_shorthand_hd[OF this] assms(2) show ?thesis
      by (auto simp: class_codes sign_code[of "hd str"] dest: digit_not_letter)
  qed simp
  then show ?thesis by (simp add: shorthandOffset_def)
qed

lemma nowRelativeOffset_value:
  assumes "matches_nowRelative str sign num u"
    "UNIT_NAMES (toLowerCase u) = Some unit" "UNIT_SECONDS unit = Some secs"
  shows "nowRelativeOffset t str =
           Some (t + (if sign = ''-'' then - 1 else 1) * parseInt num * secs)"
proof -
  have "nowRelativeMatch str = Some (sign, num, u)"
    using assms(1) by (simp add: nowRelativeMatch_iff)
  then show ?thesis using assms by (simp add: nowRelativeOffset_def)
qed

section \<open>Numeric input\<close>

text \<open>
  C5. A number is returned unchanged, whatever the clock and the parser are: zero
  resolves to zero, and resolving the result again gives the same result.
\<close>

theorem numeric_passthrough:
  "parseDatetime e (Num n) = Inr n
   \<and> parseDatetime e (Num 0) = Inr 0
   \<and> (case parseDatetime e (Num n) of
        Inr v \<Rightarrow> parseDatetime e' (Num v) = parseDatetime e (Num n)
      | Inl err \<Rightarrow> False)"
  by (simp add: parseDatetime_def)

section \<open>Shorthand offsets\<close>



section \<open>Offsets from now\<close>

lemma resolve_now_offset:
  assumes "list_all is_space w1" "list_all is_space w2" "sign \<in> {''+'', ''-''}"
    "num \<noteq> []" "list_all is_digit num" "map_of UNIT_NAMES_entries u = Some unit"
  shows "\<exists>secs. UNIT_SECONDS unit = Some secs
            \<and> parseDatetime e (Str (''now'' @ w1 @ sign @ w2 @ num @ u)) =
                Inr (of_int (if sign = ''+'' then now e + parseInt num * secs
                             else now e - parseInt num * secs))"
proof -
  let ?str = "''now'' @ w1 @ sign @ w2 @ num @ u"
  from own_keys[OF assms(6)] have u: "u \<noteq> []" "list_all is_lower u" by auto
  obtain secs where secs: "UNIT_SECONDS unit = Some secs"
    using own_unit_seconds[OF assms(6)] by blast
  have lu: "list_all is_letter u" using u(2) by (rule list_all_weaken) (rule lower_is_letter)
  have k: "toLowerCase ''now'' = ''now''" by code_simp
  have m: "matches_nowRelative ?str sign num u"
    unfolding matches_nowRelative_def
    using assms u lu k by (intro exI[of _ "''now''"] exI[of _ w1] exI[of _ w2] exI[of _ "[]"]) simp
  have sg: "list_all (\<lambda>c. c = CHR ''+'' \<or> c = CHR ''-'') sign"
    using assms(3) by auto
  have nw: "list_all is_lower ''now''" by code_simp
  have cls: "list_all (\<lambda>c. is_lower c \<or> is_digit c \<or> is_space c \<or> c = CHR ''+'' \<or> c = CHR ''-'') ?str"
    unfolding list_all_append
    using nw sg assms(1,2,5) u(2) by (blast intro: list_all_weaken)
  have low: "toLowerCase ?str = ?str" using cls by (rule toLowerCase_fix)
  have "last ?str = last u" using u by simp
  moreover have "is_lower (last u)" using u by (simp add: list_all_iff)
  ultimately have "\<not> is_space (last ?str)"
    using letter_not_space lower_is_letter by auto
  moreover have n: "is_letter (CHR ''n'')" by (simp add: is_letter_def is_lower_def)
  then have "\<not> is_space (hd ?str)" using letter_not_space by simp
  ultimately have tr: "trim ?str = ?str" by (simp add: trim_fix)
  have nn: "?str \<noteq> ''now''" using assms(3) by auto
  have sh: "shorthandOffset (now e) ?str = None"
    using n by (intro shorthandOffset_letter_start) simp_all
  have tl: "toLowerCase u = u" using u(2) by (rule toLowerCase_lower)
  have un: "UNIT_NAMES (toLowerCase u) = Some unit"
    unfolding tl by (rule own_key_lookup[OF assms(6)])
  have "nowRelativeOffset (now e) ?str =
          Some (now e + (if sign = ''-'' then - 1 else 1) * parseInt num * secs)"
    using m un secs by (rule nowRelativeOffset_value)
  then have "parseDatetime e (Str ?str) =
          Inr (of_int (now e + (if sign = ''-'' then - 1 else 1) * parseInt num * secs))"
    using tr low nn sh by (intro resolve_nowRelative[where str = ?str]) simp_all
  then show ?thesis using secs assms(3) by auto
qed



section \<open>Shorthand with an unknown unit\<close>

lemma word_letters: "toLowerCase k = word \<Longrightarrow> word \<noteq> [] \<Longrightarrow> is_lower (hd word)
  \<Longrightarrow> k \<noteq> [] \<and> is_letter (hd k)"
  by (cases k) (auto simp: toLowerCase_def is_lower_lower_char)

lemma matches_nowRelative_hd:
  assumes "matches_nowRelative str sign num u"
  shows "str \<noteq> [] \<and> is_letter (hd str)"
proof -
  from assms obtain k r where s: "str = k @ r" and k: "toLowerCase k = ''now''"
    unfolding matches_nowRelative_def by blast
  have "is_lower (hd ''now'')" by code_simp
  then have "k \<noteq> [] \<and> is_letter (hd k)" using k by (intro word_letters[of k "''now''"]) simp_all
  then show ?thesis using s by simp
qed

lemma nowRelativeOffset_other_start:
  assumes "str = [] \<or> \<not> is_letter (hd str)"
  shows "nowRelativeOffset t str = None"
proof -
  have "nowRelativeMatch str = None"
  proof (cases "nowRelativeMatch str")
    case (Some p)
    obtain sign num u where "p = (sign, num, u)" by (cases p) auto
    with Some have "matches_nowRelative str sign num u" by (simp add: nowRelativeMatch_iff)
    from matches_nowRelative_hd[OF this] assms show ?thesis by blast
  qed simp
  then show ?thesis by (simp add: nowRelativeOffset_def)
qed

lemma shorthandOffset_unknown:
  assumes "matches_shorthand str sign num u" "map_of UNIT_NAMES_entries u = None"
  shows "shorthandOffset t str = None"
proof -
  have m: "shorthandMatch str = Some (sign, num, u)"
    using assms(1) by (simp add: shorthandMatch_iff)
  have "list_all is_lower u" using assms(1) by (auto simp: matches_shorthand_def)
  then have tl: "toLowerCase u = u" by (rule toLowerCase_lower)
  have o: "UNIT_SECONDS Object_toString = None" by code_simp
  have "UNIT_NAMES (toLowerCase u) = None \<or> UNIT_NAMES (toLowerCase u) = Some Object_toString"
    unfolding tl using assms(2) by (simp add: UNIT_NAMES_def)
  then show ?thesis
    using o by (auto simp: shorthandOffset_def m)
qed

lemma matches_ago_space: "matches_ago str num u \<Longrightarrow> \<exists>c\<in>set str. is_space c"
  unfolding matches_ago_def using spaces_hd by (metis hd_in_set Un_iff set_append)

lemma matches_word_space: "matches_word word str num u \<Longrightarrow> \<exists>c\<in>set str. is_space c"
  unfolding matches_word_def using spaces_hd by (metis hd_in_set Un_iff set_append)

lemma agoMatch_no_space: "\<not> (\<exists>c\<in>set str. is_space c) \<Longrightarrow> agoMatch str = None"
  using matches_ago_space agoMatch_iff by (cases "agoMatch str") fastforce+

lemma wordMatch_no_space: "\<not> (\<exists>c\<in>set str. is_space c) \<Longrightarrow> wordMatch word str = None"
  using matches_word_space wordMatch_iff by (cases "wordMatch word str") fastforce+

lemma normalizeInput_no_space:
  "\<not> (\<exists>c\<in>set str. is_space c) \<Longrightarrow> normalizeInput str = str"
  by (simp add: normalizeInput_def agoMatch_no_space wordMatch_no_space
      inMatch_def minusMatch_def plusMatch_def agoPhrase_def inPhrase_def)

text \<open>
  C7. A sign, digits and letters that are no key of the unit table: the shorthand tier
  does not decide. What the resolver returns, value or error, is what the last tier
  (normalizer, then the natural-language parser) returns for the trimmed, lower-cased
  string, and the normalizer leaves that string as it is.
\<close>

theorem unknown_unit_falls_through:
  assumes "toLowerCase (trim s) = sign @ num @ u" "sign \<in> {[], ''+'', ''-''}"
    "num \<noteq> []" "list_all is_digit num" "u \<noteq> []" "list_all is_lower u"
    "map_of UNIT_NAMES_entries u = None"
  shows "parseDatetime e (Str s) = naturalLanguage e s (sign @ num @ u)
         \<and> normalizeInput (sign @ num @ u) = sign @ num @ u"
proof -
  let ?str = "sign @ num @ u"
  have m: "matches_shorthand ?str sign num u"
    unfolding matches_shorthand_def using assms by (intro exI[of _ "[]"]) simp
  have sh: "shorthandOffset (now e) ?str = None"
    using m assms(7) by (rule shorthandOffset_unknown)
  have hd: "is_digit (hd ?str) \<or> hd ?str = CHR ''+'' \<or> hd ?str = CHR ''-''"
    using matches_shorthand_hd[OF m] by simp
  have "\<not> is_letter (CHR ''+'')" "\<not> is_letter (CHR ''-'')" by code_simp+
  then have "\<not> is_letter (hd ?str)" using hd digit_not_letter by metis
  then have nr: "nowRelativeOffset (now e) ?str = None"
    by (intro nowRelativeOffset_other_start) simp
  have "hd ''now'' = CHR ''n''" by simp
  moreover have "\<not> is_digit (CHR ''n'')" "CHR ''n'' \<noteq> CHR ''+''" "CHR ''n'' \<noteq> CHR ''-''"
    by (simp_all add: is_digit_def)
  ultimately have nn: "?str \<noteq> ''now''" using hd by metis
  have 1: "parseDatetime e (Str s) = naturalLanguage e s ?str"
    using assms(1) nn sh nr by (rule resolve_naturalLanguage)
  have "\<not> is_space (CHR ''+'')" "\<not> is_space (CHR ''-'')" by code_simp+
  then have "\<not> is_space c" if "c \<in> set ?str" for c
    using that assms(2,4,6) digit_not_space letter_not_space lower_is_letter
    by (auto simp: list_all_iff)
  then have 2: "normalizeInput ?str = ?str"
    by (intro normalizeInput_no_space) blast
  show ?thesis using 1 2 by simp
qed

theorem unknown_unit_falls_through_witness:
  "toLowerCase (trim '' +5X '') = ''+'' @ ''5'' @ ''x'' \<and> ''+'' \<in> {[], ''+'', ''-''}
   \<and> ''5'' \<noteq> [] \<and> list_all is_digit ''5'' \<and> ''x'' \<noteq> [] \<and> list_all is_lower ''x''
   \<and> map_of UNIT_NAMES_entries ''x'' = None
   \<and> parseDatetime sample_env (Str '' +5X '') = Inl (Error (message '' +5X ''))"
proof -
  have h1: "toLowerCase (trim '' +5X '') = ''+'' @ ''5'' @ ''x''" by code_simp
  have h2: "''+'' \<in> {[], ''+'', ''-''}" and h3: "''5'' \<noteq> []" and h5: "''x'' \<noteq> []"
    by simp_all
  have h4: "list_all is_digit ''5''" and h6: "list_all is_lower ''x''"
    and h7: "map_of UNIT_NAMES_entries ''x'' = None" by code_simp+
  have c: "chrono_parseDate sample_env ''+5x'' (new_Date sample_env) = None"
    by code_simp
  have "parseDatetime sample_env (Str '' +5X '') = Inl (Error (message '' +5X ''))"
    using unknown_unit_falls_through[OF h1 h2 h3 h4 h5 h6 h7, of sample_env] c
    by (simp add: naturalLanguage_def)
  then show ?thesis using h1 h2 h3 h4 h5 h6 h7 by blast
qed

section \<open>White space and case of the input\<close>

lemma same_normal_form:
  "toLowerCase (trim s) = toLowerCase (trim s') \<Longrightarrow>
     (parseDatetime e (Str s) = Inr v \<longleftrightarrow> parseDatetime e (Str s') = Inr v)"
  by (auto simp: parseDatetime_def naturalLanguage_def Let_def split: option.splits)

text \<open>
  C8. A string resolves exactly when its trimmed, lower-cased form resolves, and to the
  same value; so do \<open>NOW-1H\<close> and \<open>now-1h\<close>, and \<open>now\<close> with and without
  blanks around it.
\<close>

theorem trimmed_lower_cased_form_decides:
  "(parseDatetime e (Str s) = Inr v \<longleftrightarrow> parseDatetime e (Str (toLowerCase (trim s))) = Inr v)
   \<and> parseDatetime e (Str ''NOW-1H'') = parseDatetime e (Str ''now-1h'')
   \<and> parseDatetime e (Str ''  now  '') = parseDatetime e (Str ''now'')"
proof -
  have 1: "parseDatetime e (Str s) = Inr v \<longleftrightarrow> parseDatetime e (Str (toLowerCase (trim s))) = Inr v"
    by (rule same_normal_form) (simp add: normal_form_idem)
  have h: "map_of UNIT_NAMES_entries ''h'' = Some ''hour''" by code_simp
  have dg: "list_all is_digit ''1''" by code_simp
  obtain v where v: "parseDatetime e (Str ''now-1h'') = Inr v"
    using resolve_now_offset[of "[]" "[]" "''-''" "''1''" "''h''" "''hour''" e] h dg
    by auto
  have "toLowerCase (trim ''NOW-1H'') = toLowerCase (trim ''now-1h'')" by code_simp
  from same_normal_form[OF this, of e v] have 2: "parseDatetime e (Str ''NOW-1H'') = Inr v"
    using v by simp
  have a: "toLowerCase (trim ''  now  '') = ''now''" and b: "toLowerCase (trim ''now'') = ''now''"
    by code_simp+
  show ?thesis using 1 2 v resolve_now[OF a, of e] resolve_now[OF b, of e] by simp
qed

section \<open>Failure\<close>

lemma parseDatetime_cases:
  "parseDatetime e (Str s) =
     (if toLowerCase (trim s) = ''now'' then Inr (of_int (now e))
      else case shorthandOffset (now e) (toLowerCase (trim s)) of
             Some v \<Rightarrow> Inr (of_int v)
           | None \<Rightarrow>
               (case nowRelativeOffset (now e) (toLowerCase (trim s)) of
                  Some v \<Rightarrow> Inr (of_int v)
                | None \<Rightarrow>
                    (case chrono_parseDate e (normalizeInput (toLowerCase (trim s))) (new_Date e) of
                       Some parsed \<Rightarrow> Inr (of_int (parsed div 1000))
                     | None \<Rightarrow> Inl (Error (message s)))))"
  by (simp add: parseDatetime_def naturalLanguage_def Let_def split: option.splits)

lemma message_echo:
  \<open>message s =
     ''Invalid datetime format: "'' @ s @
     ''". Supported formats: epoch seconds, shorthand (-1d, 2h, +1w), relative (now-1h), natural language (yesterday, 5 days ago, last Friday, in 2 weeks), ISO 8601''\<close>
  by (simp add: message_def)

lemma invalid_tiers:
  "toLowerCase (trim ''invalid'') = ''invalid''" "shorthandOffset t ''invalid'' = None"
  "nowRelativeOffset t ''invalid'' = None" "normalizeInput ''invalid'' = ''invalid''"
  by code_simp+

lemma empty_tiers:
  "toLowerCase (trim []) = []" "shorthandOffset t [] = None"
  "nowRelativeOffset t [] = None" "normalizeInput [] = []"
  by code_simp+

text \<open>
  C3. On a string the resolver either returns a value or fails with the one error, whose
  message is built around the input as it was given. It fails exactly when the string
  is not \<open>now\<close>, neither offset tier returns a value and the natural-language parser
  returns nothing for the normalized string; a value is then never returned. The
  message holds the input between a fixed head and the list of supported formats. When
  the parser knows nothing of \<open>invalid\<close>, or of the empty string, that input fails,
  and the message of the former contains \<open>invalid\<close>.
\<close>

theorem failure_is_invalid_format:
  \<open>(parseDatetime e (Str s) = Inl (Error (message s)) \<or> (\<exists>v. parseDatetime e (Str s) = Inr v))
   \<and> (parseDatetime e (Str s) = Inl err \<longleftrightarrow>
        err = Error (message s)
        \<and> toLowerCase (trim s) \<noteq> ''now''
        \<and> shorthandOffset (now e) (toLowerCase (trim s)) = None
        \<and> nowRelativeOffset (now e) (toLowerCase (trim s)) = None
        \<and> chrono_parseDate e (normalizeInput (toLowerCase (trim s))) (new_Date e) = None)
   \<and> message s =
        ''Invalid datetime format: "'' @ s @
        ''". Supported formats: epoch seconds, shorthand (-1d, 2h, +1w), relative (now-1h), natural language (yesterday, 5 days ago, last Friday, in 2 weeks), ISO 8601''
   \<and> sublist s (message s)
   \<and> (chrono_parseDate e ''invalid'' (new_Date e) = None \<longrightarrow>
        parseDatetime e (Str ''invalid'') = Inl (Error (message ''invalid''))
        \<and> sublist ''invalid'' (message ''invalid''))
   \<and> (chrono_parseDate e [] (new_Date e) = None \<longrightarrow>
        parseDatetime e (Str []) = Inl (Error (message [])))\<close>
proof -
  have 1: "parseDatetime e (Str s) = Inl (Error (message s)) \<or> (\<exists>v. parseDatetime e (Str s) = Inr v)"
    unfolding parseDatetime_cases by (simp split: option.splits)
  have 2: "parseDatetime e (Str s) = Inl err \<longleftrightarrow>
        err = Error (message s)
        \<and> toLowerCase (trim s) \<noteq> ''now''
        \<and> shorthandOffset (now e) (toLowerCase (trim s)) = None
        \<and> nowRelativeOffset (now e) (toLowerCase (trim s)) = None
        \<and> chrono_parseDate e (normalizeInput (toLowerCase (trim s))) (new_Date e) = None"
    unfolding parseDatetime_cases by (auto split: option.splits)
  have 4: "sublist s (message s)" for s
    unfolding message_echo sublist_def by blast
  have 5: "parseDatetime e (Str ''invalid'') = Inl (Error (message ''invalid''))"
    if "chrono_parseDate e ''invalid'' (new_Date e) = None"
    unfolding parseDatetime_cases using that by (simp add: invalid_tiers)
  have 6: "parseDatetime e (Str []) = Inl (Error (message []))"
    if "chrono_parseDate e [] (new_Date e) = None"
    unfolding parseDatetime_cases using that by (simp add: empty_tiers)
  show ?thesis using 1 2 message_echo[of s] 4 5 6 by blast
qed

theorem failure_is_invalid_format_witness:
  \<open>chrono_parseDate sample_env ''invalid'' (new_Date sample_env) = None
   \<and> chrono_parseDate sample_env [] (new_Date sample_env) = None
   \<and> parseDatetime sample_env (Str ''invalid'') = Inl (Error (message ''invalid''))
   \<and> sublist ''invalid'' (message ''invalid'')
   \<and> parseDatetime sample_env (Str []) = Inl (Error (message []))\<close>
proof -
  have h1: "chrono_parseDate sample_env ''invalid'' (new_Date sample_env) = None"
    and h2: "chrono_parseDate sample_env [] (new_Date sample_env) = None"
    by code_simp+
  show ?thesis
    using failure_is_invalid_format[of sample_env "''invalid''"] h1 h2 by blast
qed

section \<open>The natural-language tier\<close>

lemma shorthandOffset_None_any: "shorthandOffset t str = None \<Longrightarrow> shorthandOffset t' str = None"
  by (auto simp: shorthandOffset_def split: option.splits if_splits)

lemma nowRelativeOffset_None_any:
  "nowRelativeOffset t str = None \<Longrightarrow> nowRelativeOffset t' str = None"
  by (auto simp: nowRelativeOffset_def split: option.splits if_splits)

lemma floor_ms: "\<lfloor>(of_int parsed :: rat) / 1000\<rfloor> = parsed div 1000"
  using floor_divide_of_int_eq[of parsed 1000, where 'a = rat] by simp

lemma right_now_tiers:
  "toLowerCase (trim ''right now'') = ''right now''" "shorthandOffset t ''right now'' = None"
  "nowRelativeOffset t ''right now'' = None" "normalizeInput ''right now'' = ''right now''"
  by code_simp+

text \<open>
  C4, as stated, fails. Between the reading of the clock at the start and the call of
  the parser the clock goes from 12:00:00.999 to 12:00:01.000. The input \<open>right now\<close>
  reaches the last tier; the parser, asked at the instant captured at the start (as
  seconds, or as the milliseconds read), would answer within second 1732800000; the
  resolver returns 1732800001.
\<close>

theorem fallback_anchor_counterexample:
  "toLowerCase (trim ''right now'') \<noteq> ''now''
   \<and> shorthandOffset (now sample_env) (toLowerCase (trim ''right now'')) = None
   \<and> nowRelativeOffset (now sample_env) (toLowerCase (trim ''right now'')) = None
   \<and> chrono_parseDate sample_env (normalizeInput (toLowerCase (trim ''right now'')))
        (1000 * now sample_env) = Some 1732800000000
   \<and> chrono_parseDate sample_env (normalizeInput (toLowerCase (trim ''right now'')))
        (Date_now sample_env) = Some 1732800000999
   \<and> parseDatetime sample_env (Str ''right now'') = Inr 1732800001
   \<and> parseDatetime sample_env (Str ''right now'') \<noteq> Inr (of_int (1732800000000 div 1000))
   \<and> parseDatetime sample_env (Str ''right now'') \<noteq> Inr (of_int (1732800000999 div 1000))"
proof -
  have n: "now sample_env = 1732800000" by code_simp
  have c1: "chrono_parseDate sample_env ''right now'' 1732800000000 = Some 1732800000000"
    by code_simp
  have c2: "chrono_parseDate sample_env ''right now'' (Date_now sample_env) = Some 1732800000999"
    by code_simp
  have c3: "chrono_parseDate sample_env ''right now'' (new_Date sample_env) = Some 1732800001000"
    by code_simp
  have p: "parseDatetime sample_env (Str ''right now'') = Inr 1732800001"
    unfolding parseDatetime_cases by (simp add: right_now_tiers c3)
  show ?thesis
    unfolding p right_now_tiers n by (simp add: c1 c2)
qed

text \<open>
  C4, amended. For an input that no earlier tier resolves, the resolver normalizes the
  trimmed, lower-cased string and calls the natural-language parser on the result with
  the parser's own reference instant, the clock as read when the parser is called; if
  the parser yields an instant, the resolver returns its seconds, rounded down. The
  instant captured at the start is not passed to the parser and does not change the
  result.
\<close>

theorem fallback_uses_parser_reference:
  assumes "toLowerCase (trim s) \<noteq> ''now''"
    "shorthandOffset (now e) (toLowerCase (trim s)) = None"
    "nowRelativeOffset (now e) (toLowerCase (trim s)) = None"
  shows "parseDatetime e (Str s) =
           (case chrono_parseDate e (normalizeInput (toLowerCase (trim s))) (new_Date e) of
              Some parsed \<Rightarrow> Inr (of_int \<lfloor>(of_int parsed :: rat) / 1000\<rfloor>)
            | None \<Rightarrow> Inl (Error (message s)))
         \<and> parseDatetime (e\<lparr>Date_now := d\<rparr>) (Str s) = parseDatetime e (Str s)"
proof -
  let ?e = "e\<lparr>Date_now := d\<rparr>"
  have 1: "parseDatetime e (Str s) =
           (case chrono_parseDate e (normalizeInput (toLowerCase (trim s))) (new_Date e) of
              Some parsed \<Rightarrow> Inr (of_int \<lfloor>(of_int parsed :: rat) / 1000\<rfloor>)
            | None \<Rightarrow> Inl (Error (message s)))"
    unfolding parseDatetime_cases floor_ms using assms by simp
  have "shorthandOffset (now ?e) (toLowerCase (trim s)) = None"
    "nowRelativeOffset (now ?e) (toLowerCase (trim s)) = None"
    using assms shorthandOffset_None_any nowRelativeOffset_None_any by blast+
  then have "parseDatetime ?e (Str s) =
           (case chrono_parseDate ?e (normalizeInput (toLowerCase (trim s))) (new_Date ?e) of
              Some parsed \<Rightarrow> Inr (of_int \<lfloor>(of_int parsed :: rat) / 1000\<rfloor>)
            | None \<Rightarrow> Inl (Error (message s)))"
    unfolding parseDatetime_cases floor_ms using assms(1) by simp
  then show ?thesis using 1 by simp
qed

theorem fallback_uses_parser_reference_witness:
  "toLowerCase (trim '' Right Now '') \<noteq> ''now''
   \<and> shorthandOffset (now sample_env) (toLowerCase (trim '' Right Now '')) = None
   \<and> nowRelativeOffset (now sample_env) (toLowerCase (trim '' Right Now '')) = None
   \<and> parseDatetime sample_env (Str '' Right Now '') = Inr 1732800001
   \<and> parseDatetime (sample_env\<lparr>Date_now := 0\<rparr>) (Str '' Right Now '') = Inr 1732800001"
proof -
  have t: "toLowerCase (trim '' Right Now '') = ''right now''" by code_simp
  have h1: "toLowerCase (trim '' Right Now '') \<noteq> ''now''" unfolding t by simp
  have h2: "shorthandOffset (now sample_env) (toLowerCase (trim '' Right Now '')) = None"
    and h3: "nowRelativeOffset (now sample_env) (toLowerCase (trim '' Right Now '')) = None"
    unfolding t by (rule right_now_tiers)+
  have c: "chrono_parseDate sample_env ''right now'' (new_Date sample_env) = Some 1732800001000"
    by code_simp
  have "parseDatetime sample_env (Str '' Right Now '') = Inr 1732800001
      \<and> parseDatetime (sample_env\<lparr>Date_now := 0\<rparr>) (Str '' Right Now '') = Inr 1732800001"
    using fallback_uses_parser_reference[OF h1 h2 h3, of 0]
    by (simp add: t right_now_tiers c)
  then show ?thesis using h1 h2 h3 by blast
qed

section \<open>The result is a number of whole seconds\<close>





section \<open>The earlier revision agrees on the old dialects\<close>

lemma relativeMatch_concat:
  assumes "num \<noteq> []" "list_all is_digit num" "u \<in> set ''smhdw''"
  shows "relativeMatch (''now-'' @ num @ [u]) = Some (num, [u])"
proof -
  have "\<not> is_digit u" using assms(3) by (auto simp: is_digit_def)
  then have 1: "takeWhile is_digit (num @ [u]) = num" and 2: "dropWhile is_digit (num @ [u]) = [u]"
    using assms(2) by (simp_all add: takeWhile_run dropWhile_run)
  have 3: "take 4 (''now-'' @ num @ [u]) = ''now-''" and 4: "drop 4 (''now-'' @ num @ [u]) = num @ [u]"
    by simp_all
  show ?thesis
    unfolding relativeMatch_def 3 4 Let_def 1 2 using assms by simp
qed

lemma relativeMatch_multipliers:
  "relativeMatch str = Some (num, unit) \<Longrightarrow> \<exists>m. multipliers unit = Some m"
  by (auto simp: relativeMatch_def multipliers_def Let_def split: if_splits list.splits)

lemma old_units:
  assumes "u \<in> set ''smhdw''"
  shows "\<exists>unit m. map_of UNIT_NAMES_entries [u] = Some unit \<and> UNIT_SECONDS unit = Some m
           \<and> multipliers [u] = Some m"
proof -
  have "map_of UNIT_NAMES_entries ''s'' = Some ''second''" "UNIT_SECONDS ''second'' = Some 1"
    "multipliers ''s'' = Some 1"
    "map_of UNIT_NAMES_entries ''m'' = Some ''minute''" "UNIT_SECONDS ''minute'' = Some 60"
    "multipliers ''m'' = Some 60"
    "map_of UNIT_NAMES_entries ''h'' = Some ''hour''" "UNIT_SECONDS ''hour'' = Some 3600"
    "multipliers ''h'' = Some 3600"
    "map_of UNIT_NAMES_entries ''d'' = Some ''day''" "UNIT_SECONDS ''day'' = Some 86400"
    "multipliers ''d'' = Some 86400"
    "map_of UNIT_NAMES_entries ''w'' = Some ''week''" "UNIT_SECONDS ''week'' = Some 604800"
    "multipliers ''w'' = Some 604800"
    by code_simp+
  then show ?thesis using assms by auto
qed

lemma prior_now:
  "toLowerCase (trim s) = ''now'' \<Longrightarrow> parseDatetime_prior e (Str s) = Inr (of_int (now e))"
  by (simp add: parseDatetime_prior_def)

lemma prior_relative:
  assumes "toLowerCase (trim s) = ''now-'' @ num @ [u]" "num \<noteq> []" "list_all is_digit num"
    "u \<in> set ''smhdw''" "multipliers [u] = Some m"
  shows "parseDatetime_prior e (Str s) = Inr (of_int (now e - parseInt num * m))"
proof -
  have "''now-'' @ num @ [u] \<noteq> ''now''" by simp
  then show ?thesis
    unfolding parseDatetime_prior_def
    using assms(1,5) relativeMatch_concat[OF assms(2,3,4)] by (simp add: Let_def)
qed

lemma current_relative:
  assumes "toLowerCase (trim s) = ''now-'' @ num @ [u]" "num \<noteq> []" "list_all is_digit num"
    "map_of UNIT_NAMES_entries [u] = Some unit" "UNIT_SECONDS unit = Some m"
  shows "parseDatetime e (Str s) = Inr (of_int (now e - parseInt num * m))"
proof -
  let ?str = "''now'' @ [] @ ''-'' @ [] @ num @ [u]"
  have t: "toLowerCase (trim s) = toLowerCase (trim ?str)"
    using normal_form_idem[of s] assms(1) by simp
  obtain secs where "UNIT_SECONDS unit = Some secs"
    and "parseDatetime e (Str ?str) = Inr (of_int (if ''-'' = ''+'' then now e + parseInt num * secs
                             else now e - parseInt num * secs))"
    using resolve_now_offset[of "[]" "[]" "''-''" num "[u]" unit e] assms(2,3,4) by auto
  then have "parseDatetime e (Str ?str) = Inr (of_int (now e - parseInt num * m))"
    using assms(5) by simp
  then show ?thesis using same_normal_form[OF t] by simp
qed

text \<open>
  C10. The earlier revision and the current one, in the same surroundings, return the
  same result for every number, for every string whose trimmed, lower-cased form is
  \<open>now\<close>, and for every string whose trimmed, lower-cased form is \<open>now-\<close>, digits
  and one of the letters s, m, h, d, w; a string that is itself of that form is one of
  them.
\<close>

theorem prior_parser_agrees:
  "parseDatetime_prior e (Num n) = parseDatetime e (Num n)
   \<and> (toLowerCase (trim s) = ''now'' \<longrightarrow>
        parseDatetime_prior e (Str s) = parseDatetime e (Str s))
   \<and> (toLowerCase (trim s) = ''now-'' @ num @ [u] \<and> num \<noteq> [] \<and> list_all is_digit num
        \<and> u \<in> set ''smhdw'' \<longrightarrow>
        parseDatetime_prior e (Str s) = parseDatetime e (Str s))
   \<and> (num \<noteq> [] \<and> list_all is_digit num \<and> u \<in> set ''smhdw'' \<longrightarrow>
        parseDatetime_prior e (Str (''now-'' @ num @ [u]))
          = parseDatetime e (Str (''now-'' @ num @ [u])))"
proof -
  have 1: "parseDatetime_prior e (Num n) = parseDatetime e (Num n)"
    by (simp add: parseDatetime_prior_def parseDatetime_def)
  have 2: "parseDatetime_prior e (Str s) = parseDatetime e (Str s)"
    if "toLowerCase (trim s) = ''now''"
    using that by (simp add: prior_now resolve_now)
  have 3: "parseDatetime_prior e (Str s) = parseDatetime e (Str s)"
    if a: "toLowerCase (trim s) = ''now-'' @ num @ [u]" "num \<noteq> []" "list_all is_digit num"
      "u \<in> set ''smhdw''" for s
  proof -
    from old_units[OF a(4)] obtain unit m where
      "map_of UNIT_NAMES_entries [u] = Some unit" "UNIT_SECONDS unit = Some m"
      "multipliers [u] = Some m" by blast
    then show ?thesis
      using prior_relative[OF a, of m e] current_relative[OF a(1,2,3), of unit m e] by simp
  qed
  have 4: "toLowerCase (trim (''now-'' @ num @ [u])) = ''now-'' @ num @ [u]"
    if a: "num \<noteq> []" "list_all is_digit num" "u \<in> set ''smhdw''"
  proof -
    let ?str = "''now-'' @ num @ [u]"
    have l: "is_lower u" using a(3) by (auto simp: is_lower_def)
    have nw: "list_all (\<lambda>c. is_lower c \<or> is_digit c \<or> is_space c \<or> c = CHR ''+'' \<or> c = CHR ''-'') ''now-''"
      by code_simp
    have "list_all (\<lambda>c. is_lower c \<or> is_digit c \<or> is_space c \<or> c = CHR ''+'' \<or> c = CHR ''-'') ?str"
      unfolding list_all_append using nw a(2) l by (auto intro: list_all_weaken)
    then have "toLowerCase ?str = ?str" by (rule toLowerCase_fix)
    moreover have "\<not> is_space (CHR ''n'')" by code_simp
    then have "trim ?str = ?str"
      using l letter_not_space lower_is_letter by (intro trim_fix) auto
    ultimately show ?thesis by simp
  qed
  show ?thesis using 1 2 3 3[OF 4] by blast
qed

theorem prior_parser_agrees_witness:
  "toLowerCase (trim '' NOW-15M '') = ''now-'' @ ''15'' @ [CHR ''m''] \<and> ''15'' \<noteq> []
   \<and> list_all is_digit ''15'' \<and> CHR ''m'' \<in> set ''smhdw''
   \<and> toLowerCase (trim ''Now'') = ''now''
   \<and> parseDatetime_prior sample_env (Str '' NOW-15M '') = parseDatetime sample_env (Str '' NOW-15M '')
   \<and> parseDatetime_prior sample_env (Str ''Now'') = parseDatetime sample_env (Str ''Now'')
   \<and> parseDatetime_prior sample_env (Str ''now-15m'') = parseDatetime sample_env (Str ''now-15m'')"
proof -
  have h1: "toLowerCase (trim '' NOW-15M '') = ''now-'' @ ''15'' @ [CHR ''m'']" by code_simp
  have h2: "''15'' \<noteq> []" and h4: "CHR ''m'' \<in> set ''smhdw''" by simp_all
  have h3: "list_all is_digit ''15''" by code_simp
  have h5: "toLowerCase (trim ''Now'') = ''now''" by code_simp
  have a: "parseDatetime_prior sample_env (Str '' NOW-15M '') = parseDatetime sample_env (Str '' NOW-15M '')"
    using prior_parser_agrees[of sample_env _ "'' NOW-15M ''" "''15''" "CHR ''m''"] h1 h2 h3 h4
    by blast
  have b: "parseDatetime_prior sample_env (Str ''Now'') = parseDatetime sample_env (Str ''Now'')"
    using prior_parser_agrees[of sample_env _ "''Now''"] h5 by blast
  have c: "parseDatetime_prior sample_env (Str ''now-15m'') = parseDatetime sample_env (Str ''now-15m'')"
    using prior_parser_agrees[of sample_env _ _ "''15''" "CHR ''m''"] h2 h3 h4 by simp
  show ?thesis using h1 h2 h3 h4 h5 a b c by blast
qed

section \<open>The normalizer\<close>

lemma parseInt_snoc: "parseInt (ds @ [c]) = 10 * parseInt ds + digit_val c"
  by (simp add: parseInt_def)

lemma digit_val_range: "is_digit c \<Longrightarrow> 0 \<le> digit_val c \<and> digit_val c \<le> 9"
  by (auto simp: digit_code digit_val_def)

lemma digit_val_zero: "is_digit c \<Longrightarrow> digit_val c = 0 \<longleftrightarrow> c = CHR ''0''"
proof -
  have "c = CHR ''0'' \<longleftrightarrow> (of_char c :: nat) = 48"
    by (simp add: char_eq_code[of c "CHR ''0''"])
  then show ?thesis by (simp add: digit_val_def)
qed

lemma digit_val_one: "is_digit c \<Longrightarrow> digit_val c = 1 \<longleftrightarrow> c = CHR ''1''"
proof -
  have "c = CHR ''1'' \<longleftrightarrow> (of_char c :: nat) = 49"
    by (simp add: char_eq_code[of c "CHR ''1''"])
  then show ?thesis by (simp add: digit_val_def)
qed

lemma parseInt_nonneg: "list_all is_digit ds \<Longrightarrow> 0 \<le> parseInt ds"
proof (induction ds rule: rev_induct)
  case Nil
  then show ?case by (simp add: parseInt_def)
next
  case (snoc c ds)
  then show ?case using digit_val_range[of c] by (simp add: parseInt_snoc)
qed

lemma parseInt_zero:
  "list_all is_digit ds \<Longrightarrow> parseInt ds = 0 \<longleftrightarrow> list_all (\<lambda>c. c = CHR ''0'') ds"
proof (induction ds rule: rev_induct)
  case Nil
  then show ?case by (simp add: parseInt_def)
next
  case (snoc c ds)
  then have d: "is_digit c" and ds: "list_all is_digit ds" by simp_all
  have "10 * parseInt ds + digit_val c = 0 \<longleftrightarrow> parseInt ds = 0 \<and> digit_val c = 0"
    using parseInt_nonneg[OF ds] digit_val_range[OF d] by arith
  then show ?case using snoc.IH[OF ds] digit_val_zero[OF d] by (simp add: parseInt_snoc)
qed

lemma parseInt_one:
  assumes "list_all is_digit (zs @ [c])"
  shows "parseInt (zs @ [c]) = 1 \<longleftrightarrow> list_all (\<lambda>c. c = CHR ''0'') zs \<and> c = CHR ''1''"
proof -
  from assms have d: "is_digit c" and ds: "list_all is_digit zs" by simp_all
  have "10 * parseInt zs + digit_val c = 1 \<longleftrightarrow> parseInt zs = 0 \<and> digit_val c = 1"
    using parseInt_nonneg[OF ds] digit_val_range[OF d] by arith
  then show ?thesis using parseInt_zero[OF ds] digit_val_one[OF d] by (simp add: parseInt_snoc)
qed

lemma matches_ago_hd: "matches_ago str num u \<Longrightarrow> str \<noteq> [] \<and> is_digit (hd str)"
  unfolding matches_ago_def using digits_hd by (cases num) auto

lemma matches_word_prefix:
  assumes "matches_word word str num u"
  shows "toLowerCase (take (length word) str) = word \<and> length word < length str
         \<and> is_space (str ! length word)"
proof -
  from assms obtain k sp w where s: "str = k @ sp @ num @ w @ u" and k: "toLowerCase k = word"
    and sp: "sp \<noteq> []" "list_all is_space sp"
    unfolding matches_word_def by blast
  have l: "length k = length word" using k by (rule toLowerCase_length)
  have "str ! length word = hd sp"
    using sp(1) by (simp add: s l[symmetric] nth_append hd_conv_nth)
  then show ?thesis using s l k sp spaces_hd by simp
qed

lemma lowered_prefix_letters:
  assumes "toLowerCase (take (length word) str) = word" "list_all is_lower word"
    "i < length word"
  shows "is_letter (str ! i)"
proof -
  have "length (take (length word) str) = length word"
    using assms(1) by (rule toLowerCase_length)
  then have i: "i < length str" using assms(3) by (simp only: length_take)
  have "toLowerCase (take (length word) str) ! i = lower_char (str ! i)"
    using assms(3) i by (simp add: toLowerCase_def)
  then have "word ! i = lower_char (str ! i)" by (simp only: assms(1))
  moreover have "is_lower (word ! i)" using assms(2,3) by (simp add: list_all_length)
  ultimately show ?thesis by (simp add: is_lower_lower_char)
qed

lemma matches_word_hd:
  assumes "matches_word word str num u" "word \<noteq> []" "list_all is_lower word"
  shows "str \<noteq> [] \<and> is_letter (hd str)"
proof -
  from matches_word_prefix[OF assms(1)] have p: "toLowerCase (take (length word) str) = word"
    and l: "length word < length str" by blast+
  from l have ne: "str \<noteq> []" by auto
  have "0 < length word" using assms(2) by blast
  with p assms(3) have "is_letter (str ! 0)" by (rule lowered_prefix_letters)
  then show ?thesis using ne by (simp add: hd_conv_nth)
qed

lemma matches_word_unique:
  assumes "matches_word w1 str n1 u1" "matches_word w2 str n2 u2"
    "list_all is_lower w1" "list_all is_lower w2"
  shows "w1 = w2"
proof -
  from matches_word_prefix[OF assms(1)] have p1: "toLowerCase (take (length w1) str) = w1"
    and s1: "is_space (str ! length w1)" by blast+
  from matches_word_prefix[OF assms(2)] have p2: "toLowerCase (take (length w2) str) = w2"
    and s2: "is_space (str ! length w2)" by blast+
  consider "length w1 < length w2" | "length w2 < length w1" | "length w1 = length w2"
    by linarith
  then show ?thesis
  proof cases
    case 1
    with p2 assms(4) have "is_letter (str ! length w1)" by (rule lowered_prefix_letters)
    then show ?thesis using s1 letter_not_space by blast
  next
    case 2
    with p1 assms(3) have "is_letter (str ! length w2)" by (rule lowered_prefix_letters)
    then show ?thesis using s2 letter_not_space by blast
  next
    case 3
    then show ?thesis using p1 p2 by metis
  qed
qed

lemma agoMatch_letter_start: "str \<noteq> [] \<and> is_letter (hd str) \<Longrightarrow> agoMatch str = None"
  using matches_ago_hd agoMatch_iff digit_not_letter
  by (cases "agoMatch str") fastforce+

lemma wordMatch_other:
  assumes "matches_word w1 str n1 u1" "list_all is_lower w1" "list_all is_lower w2" "w1 \<noteq> w2"
  shows "wordMatch w2 str = None"
proof (cases "wordMatch w2 str")
  case (Some p)
  obtain n2 u2 where "p = (n2, u2)" by (cases p) auto
  with Some have "matches_word w2 str n2 u2" by (simp add: wordMatch_iff)
  from matches_word_unique[OF assms(1) this assms(2,3)] assms(4) show ?thesis by simp
qed simp

lemma word_classes:
  "list_all is_lower ''in''" "list_all is_lower ''minus''" "list_all is_lower ''plus''"
  by code_simp+

lemma own_key_phrase:
  assumes "map_of UNIT_NAMES_entries (toLowerCase u) = Some unit"
  shows "agoPhrase (Some (num, u)) = Some (num @ '' '' @ unit @ plural num @ '' ago'')"
    and "inPhrase (Some (num, u)) = Some (''in '' @ num @ '' '' @ unit @ plural num)"
  using assms by (simp_all add: agoPhrase_def inPhrase_def UNIT_NAMES_def)

lemma normalize_ago:
  assumes "matches_ago str num u" "map_of UNIT_NAMES_entries (toLowerCase u) = Some unit"
  shows "normalizeInput str = num @ '' '' @ unit @ plural num @ '' ago''"
proof -
  have "agoMatch str = Some (num, u)" using assms(1) by (simp add: agoMatch_iff)
  then show ?thesis
    using own_key_phrase[OF assms(2), of num] by (simp add: normalizeInput_def)
qed

lemma normalize_in:
  assumes "matches_word ''in'' str num u" "map_of UNIT_NAMES_entries (toLowerCase u) = Some unit"
  shows "normalizeInput str = ''in '' @ num @ '' '' @ unit @ plural num"
proof -
  have 1: "agoMatch str = None"
    using matches_word_hd[OF assms(1)] word_classes by (intro agoMatch_letter_start) simp
  have 2: "inMatch str = Some (num, u)" using assms(1) by (simp add: inMatch_def wordMatch_iff)
  show ?thesis
    using own_key_phrase[OF assms(2), of num]
    by (simp add: normalizeInput_def 1 2 agoPhrase_def)
qed

lemma normalize_minus:
  assumes "matches_word ''minus'' str num u" "map_of UNIT_NAMES_entries (toLowerCase u) = Some unit"
  shows "normalizeInput str = num @ '' '' @ unit @ plural num @ '' ago''"
proof -
  have 1: "agoMatch str = None"
    using matches_word_hd[OF assms(1)] word_classes by (intro agoMatch_letter_start) simp
  have 2: "inMatch str = None"
    unfolding inMatch_def using assms(1) word_classes by (intro wordMatch_other[of "''minus''"]) simp_all
  have 3: "minusMatch str = Some (num, u)" using assms(1) by (simp add: minusMatch_def wordMatch_iff)
  show ?thesis
    using own_key_phrase[OF assms(2), of num]
    by (simp add: normalizeInput_def 1 2 3 agoPhrase_def inPhrase_def)
qed

lemma normalize_plus:
  assumes "matches_word ''plus'' str num u" "map_of UNIT_NAMES_entries (toLowerCase u) = Some unit"
  shows "normalizeInput str = ''in '' @ num @ '' '' @ unit @ plural num"
proof -
  have 1: "agoMatch str = None"
    using matches_word_hd[OF assms(1)] word_classes by (intro agoMatch_letter_start) simp
  have 2: "inMatch str = None"
    unfolding inMatch_def using assms(1) word_classes by (intro wordMatch_other[of "''plus''"]) simp_all
  have 3: "minusMatch str = None"
    unfolding minusMatch_def using assms(1) word_classes by (intro wordMatch_other[of "''plus''"]) simp_all
  have 4: "plusMatch str = Some (num, u)" using assms(1) by (simp add: plusMatch_def wordMatch_iff)
  show ?thesis
    using own_key_phrase[OF assms(2), of num]
    by (simp add: normalizeInput_def 1 2 3 4 agoPhrase_def inPhrase_def)
qed

lemma phrase_unknown:
  assumes "\<And>num u. m = Some (num, u) \<Longrightarrow> UNIT_NAMES (toLowerCase u) = None"
  shows "agoPhrase m = None" "inPhrase m = None"
  using assms by (auto simp: agoPhrase_def inPhrase_def split: option.splits)

lemma normalize_verbatim:
  assumes "\<And>num u. matches_ago str num u \<or> matches_word ''in'' str num u
             \<or> matches_word ''minus'' str num u \<or> matches_word ''plus'' str num u
           \<Longrightarrow> UNIT_NAMES (toLowerCase u) = None"
  shows "normalizeInput str = str"
proof -
  have a: "UNIT_NAMES (toLowerCase u) = None" if "agoMatch str = Some (num, u)" for num u
    using that assms[of num u] by (simp add: agoMatch_iff)
  have w: "UNIT_NAMES (toLowerCase u) = None"
    if "wordMatch word str = Some (num, u)" "word \<in> {''in'', ''minus'', ''plus''}" for word num u
    using that assms[of num u] by (auto simp: wordMatch_iff)
  have "agoPhrase (agoMatch str) = None"
    using a by (rule phrase_unknown)
  moreover have "inPhrase (inMatch str) = None"
    unfolding inMatch_def using w by (intro phrase_unknown) simp
  moreover have "agoPhrase (minusMatch str) = None"
    unfolding minusMatch_def using w by (intro phrase_unknown) simp
  moreover have "inPhrase (plusMatch str) = None"
    unfolding plusMatch_def using w by (intro phrase_unknown) simp
  ultimately show ?thesis by (simp add: normalizeInput_def)
qed

lemma normalizeInput_constructor:
  "normalizeInput ''1 constructor ago'' = ''1 function Object() { [native code] } ago''"
  by code_simp

text \<open>
  C6, as stated, fails. The unit \<open>wk\<close> is none of the abbreviations the claim lists,
  none of their plurals and no full unit name, yet \<open>1wk ago\<close> is rewritten; and
  \<open>mos\<close>, the plural of the listed \<open>mo\<close>, is not a key of the table, so that
  \<open>2mos ago\<close> is returned as it is.
\<close>

theorem normalizer_units_counterexample:
  "''wk'' \<notin> set [''s'', ''sec'', ''m'', ''min'', ''h'', ''hr'', ''d'', ''w'', ''mo'', ''y'', ''yr'',
                 ''ss'', ''secs'', ''ms'', ''mins'', ''hs'', ''hrs'', ''ds'', ''ws'', ''mos'', ''ys'',
                 ''yrs'', ''second'', ''minute'', ''hour'', ''day'', ''week'', ''month'', ''year'',
                 ''seconds'', ''minutes'', ''hours'', ''days'', ''weeks'', ''months'', ''years'']
   \<and> normalizeInput ''1wk ago'' = ''1 week ago''
   \<and> normalizeInput ''1wk ago'' \<noteq> ''1wk ago''
   \<and> normalizeInput ''2mos ago'' = ''2mos ago''
   \<and> normalizeInput ''2mos ago'' \<noteq> ''2 months ago''"
proof -
  have 1: "normalizeInput ''1wk ago'' = ''1 week ago''" by code_simp
  have 2: "normalizeInput ''2mos ago'' = ''2mos ago''" by code_simp
  show ?thesis unfolding 1 2 by simp
qed

text \<open>
  C6, amended. A string that as a whole, in any case, is digits, optional white space,
  letters, white space and \<open>ago\<close>, or one of the words \<open>in\<close>, \<open>minus\<close>,
  \<open>plus\<close>, white space, digits, optional white space and letters, and whose letters
  in lower case are one of the 31 keys of the unit table, is rewritten: to the digits,
  a blank, the unit of the table, the plural suffix, a blank and \<open>ago\<close> (for
  \<open>ago\<close> and \<open>minus\<close>), or to \<open>in\<close>, a blank, the digits, a blank, the unit
  and the plural suffix (for \<open>in\<close> and \<open>plus\<close>). The unit is one of the seven
  names; the suffix is empty when the digits are zeros followed by a final 1, and
  \<open>s\<close> otherwise. A string is returned as it is when, whichever way it matches one
  of the four shapes, its letters in lower case are neither a key of the table nor
  \<open>constructor\<close>; a string that matches none of the shapes is one of these.
\<close>

theorem normalizer_rewrites_table_units:
  "(matches_ago str num u \<and> map_of UNIT_NAMES_entries (toLowerCase u) = Some unit \<longrightarrow>
      normalizeInput str = num @ '' '' @ unit @ plural num @ '' ago'')
   \<and> (matches_word ''in'' str num u \<and> map_of UNIT_NAMES_entries (toLowerCase u) = Some unit \<longrightarrow>
      normalizeInput str = ''in '' @ num @ '' '' @ unit @ plural num)
   \<and> (matches_word ''minus'' str num u \<and> map_of UNIT_NAMES_entries (toLowerCase u) = Some unit \<longrightarrow>
      normalizeInput str = num @ '' '' @ unit @ plural num @ '' ago'')
   \<and> (matches_word ''plus'' str num u \<and> map_of UNIT_NAMES_entries (toLowerCase u) = Some unit \<longrightarrow>
      normalizeInput str = ''in '' @ num @ '' '' @ unit @ plural num)
   \<and> (map_of UNIT_NAMES_entries k = Some unit \<longrightarrow>
      unit \<in> set [''second'', ''minute'', ''hour'', ''day'', ''week'', ''month'', ''year''])
   \<and> map fst UNIT_NAMES_entries =
       [''s'', ''sec'', ''secs'', ''second'', ''seconds'', ''m'', ''min'', ''mins'', ''minute'',
        ''minutes'', ''h'', ''hr'', ''hrs'', ''hour'', ''hours'', ''d'', ''day'', ''days'', ''w'',
        ''wk'', ''wks'', ''week'', ''weeks'', ''mo'', ''month'', ''months'', ''y'', ''yr'', ''yrs'',
        ''year'', ''years'']
   \<and> (list_all is_digit (zs @ [c]) \<longrightarrow>
      plural (zs @ [c]) =
        (if list_all (\<lambda>z. z = CHR ''0'') zs \<and> c = CHR ''1'' then [] else ''s''))
   \<and> ((\<forall>n' u'. matches_ago str n' u' \<or> matches_word ''in'' str n' u'
                 \<or> matches_word ''minus'' str n' u' \<or> matches_word ''plus'' str n' u' \<longrightarrow>
               map_of UNIT_NAMES_entries (toLowerCase u') = None
               \<and> toLowerCase u' \<noteq> ''constructor'') \<longrightarrow>
      normalizeInput str = str)"
proof -
  have 5: "unit \<in> set [''second'', ''minute'', ''hour'', ''day'', ''week'', ''month'', ''year'']"
    if "map_of UNIT_NAMES_entries k = Some unit"
    using own_keys[OF that] by blast
  have 6: "map fst UNIT_NAMES_entries =
       [''s'', ''sec'', ''secs'', ''second'', ''seconds'', ''m'', ''min'', ''mins'', ''minute'',
        ''minutes'', ''h'', ''hr'', ''hrs'', ''hour'', ''hours'', ''d'', ''day'', ''days'', ''w'',
        ''wk'', ''wks'', ''week'', ''weeks'', ''mo'', ''month'', ''months'', ''y'', ''yr'', ''yrs'',
        ''year'', ''years'']"
    by (simp add: UNIT_NAMES_entries_def)
  have 7: "plural (zs @ [c]) =
        (if list_all (\<lambda>z. z = CHR ''0'') zs \<and> c = CHR ''1'' then [] else ''s'')"
    if "list_all is_digit (zs @ [c])"
    unfolding plural_def parseInt_one[OF that] by simp
  have 8: "normalizeInput str = str"
    if h: "\<forall>n' u'. matches_ago str n' u' \<or> matches_word ''in'' str n' u'
                 \<or> matches_word ''minus'' str n' u' \<or> matches_word ''plus'' str n' u' \<longrightarrow>
               map_of UNIT_NAMES_entries (toLowerCase u') = None
               \<and> toLowerCase u' \<noteq> ''constructor''"
  proof (rule normalize_verbatim)
    fix n' u'
    assume "matches_ago str n' u' \<or> matches_word ''in'' str n' u'
             \<or> matches_word ''minus'' str n' u' \<or> matches_word ''plus'' str n' u'"
    with h have "map_of UNIT_NAMES_entries (toLowerCase u') = None"
      "toLowerCase u' \<noteq> ''constructor''" by blast+
    then show "UNIT_NAMES (toLowerCase u') = None" by (simp add: UNIT_NAMES_def)
  qed
  show ?thesis
    using normalize_ago[of str num u unit] normalize_in[of str num u unit]
      normalize_minus[of str num u unit] normalize_plus[of str num u unit] 5 6 7 8
    by blast
qed

theorem normalizer_rewrites_table_units_witness:
  "matches_ago ''01 Hrs  AGO'' ''01'' ''Hrs''
   \<and> map_of UNIT_NAMES_entries (toLowerCase ''Hrs'') = Some ''hour''
   \<and> normalizeInput ''01 Hrs  AGO'' = ''01 hour ago''
   \<and> matches_word ''in'' ''In 15m'' ''15'' ''m''
   \<and> map_of UNIT_NAMES_entries (toLowerCase ''m'') = Some ''minute''
   \<and> normalizeInput ''In 15m'' = ''in 15 minutes''
   \<and> matches_word ''minus'' ''minus 3 days'' ''3'' ''days''
   \<and> normalizeInput ''minus 3 days'' = ''3 days ago''
   \<and> matches_word ''plus'' ''plus 1wk'' ''1'' ''wk''
   \<and> normalizeInput ''plus 1wk'' = ''in 1 week''
   \<and> normalizeInput ''5 parsecs ago'' = ''5 parsecs ago''
   \<and> map_of UNIT_NAMES_entries ''wk'' = Some ''week''
   \<and> ''week'' \<in> set [''second'', ''minute'', ''hour'', ''day'', ''week'', ''month'', ''year'']
   \<and> list_all is_digit (''0'' @ [CHR ''1'']) \<and> plural (''0'' @ [CHR ''1'']) = []"
proof -
  have a: "matches_ago ''01 Hrs  AGO'' ''01'' ''Hrs''"
    unfolding agoMatch_iff[symmetric] by code_simp
  have i: "matches_word ''in'' ''In 15m'' ''15'' ''m''"
    unfolding wordMatch_iff[symmetric] by code_simp
  have m: "matches_word ''minus'' ''minus 3 days'' ''3'' ''days''"
    unfolding wordMatch_iff[symmetric] by code_simp
  have p: "matches_word ''plus'' ''plus 1wk'' ''1'' ''wk''"
    unfolding wordMatch_iff[symmetric] by code_simp
  have ka: "map_of UNIT_NAMES_entries (toLowerCase ''Hrs'') = Some ''hour''"
    and ki: "map_of UNIT_NAMES_entries (toLowerCase ''m'') = Some ''minute''"
    and km: "map_of UNIT_NAMES_entries (toLowerCase ''days'') = Some ''day''"
    and kp: "map_of UNIT_NAMES_entries (toLowerCase ''wk'') = Some ''week''"
    by code_simp+
  have pl: "plural ''01'' = []" "plural ''15'' = ''s''" "plural ''3'' = ''s''" "plural ''1'' = []"
    by code_simp+
  note c1 = conjunct1 and c2 = conjunct2
  have "normalizeInput ''01 Hrs  AGO'' = ''01'' @ '' '' @ ''hour'' @ plural ''01'' @ '' ago''"
    using normalizer_rewrites_table_units[of "''01 Hrs  AGO''" "''01''" "''Hrs''" "''hour''", THEN c1]
      a ka by blast
  then have 1: "normalizeInput ''01 Hrs  AGO'' = ''01 hour ago''" by (simp add: pl)
  have "normalizeInput ''In 15m'' = ''in '' @ ''15'' @ '' '' @ ''minute'' @ plural ''15''"
    using normalizer_rewrites_table_units[of "''In 15m''" "''15''" "''m''" "''minute''",
        THEN c2, THEN c1] i ki by blast
  then have 2: "normalizeInput ''In 15m'' = ''in 15 minutes''" by (simp add: pl)
  have "normalizeInput ''minus 3 days'' = ''3'' @ '' '' @ ''day'' @ plural ''3'' @ '' ago''"
    using normalizer_rewrites_table_units[of "''minus 3 days''" "''3''" "''days''" "''day''",
        THEN c2, THEN c2, THEN c1] m km by blast
  then have 3: "normalizeInput ''minus 3 days'' = ''3 days ago''" by (simp add: pl)
  have "normalizeInput ''plus 1wk'' = ''in '' @ ''1'' @ '' '' @ ''week'' @ plural ''1''"
    using normalizer_rewrites_table_units[of "''plus 1wk''" "''1''" "''wk''" "''week''",
        THEN c2, THEN c2, THEN c2, THEN c1] p kp by blast
  then have 4: "normalizeInput ''plus 1wk'' = ''in 1 week''" by (simp add: pl)
  have am: "agoMatch ''5 parsecs ago'' = Some (''5'', ''parsecs'')"
    and wm: "wordMatch ''in'' ''5 parsecs ago'' = None"
      "wordMatch ''minus'' ''5 parsecs ago'' = None" "wordMatch ''plus'' ''5 parsecs ago'' = None"
    by code_simp+
  have un: "map_of UNIT_NAMES_entries (toLowerCase ''parsecs'') = None"
    "toLowerCase ''parsecs'' \<noteq> ''constructor''"
    by code_simp+
  have "\<forall>n' u'. matches_ago ''5 parsecs ago'' n' u' \<or> matches_word ''in'' ''5 parsecs ago'' n' u'
                 \<or> matches_word ''minus'' ''5 parsecs ago'' n' u'
                 \<or> matches_word ''plus'' ''5 parsecs ago'' n' u' \<longrightarrow>
               map_of UNIT_NAMES_entries (toLowerCase u') = None
               \<and> toLowerCase u' \<noteq> ''constructor''"
    unfolding agoMatch_iff[symmetric] wordMatch_iff[symmetric] am wm using un by simp
  then have 5: "normalizeInput ''5 parsecs ago'' = ''5 parsecs ago''"
    by (rule normalizer_rewrites_table_units[of "''5 parsecs ago''",
          THEN c2, THEN c2, THEN c2, THEN c2, THEN c2, THEN c2, THEN c2, THEN mp])
  have kw: "map_of UNIT_NAMES_entries ''wk'' = Some ''week''" by code_simp
  have 6: "''week'' \<in> set [''second'', ''minute'', ''hour'', ''day'', ''week'', ''month'', ''year'']"
    using normalizer_rewrites_table_units[of _ _ _ "''week''" "''wk''",
        THEN c2, THEN c2, THEN c2, THEN c2, THEN c1] kw by blast
  have dz: "list_all is_digit (''0'' @ [CHR ''1''])" by code_simp
  have "plural (''0'' @ [CHR ''1'']) =
          (if list_all (\<lambda>z. z = CHR ''0'') ''0'' \<and> CHR ''1'' = CHR ''1'' then [] else ''s'')"
    using normalizer_rewrites_table_units[of _ _ _ _ _ "''0''" "CHR ''1''",
        THEN c2, THEN c2, THEN c2, THEN c2, THEN c2, THEN c2, THEN c1] dz by blast
  then have 7: "plural (''0'' @ [CHR ''1'']) = []" by simp
  show ?thesis
    by (intro conjI a i m p ka ki 1 2 3 4 5 kw 6 dz 7)
qed

end
